theory Spec2Isabelle
  imports Complex_Main "HOL-Library.List_Lexorder" "HOL-Library.Char_ord" "HOL-Library.AList"
    "HOL-Library.Sublist"
begin

section \<open>Values and failures of the analysed script\<close>

text \<open>
  The development embeds \<^verbatim>\<open>bin/analyze_challenge.py\<close>. Every exception the script can
  raise on data is a value of \<open>py_error\<close>; a function that can raise returns
  \<open>py_error + 'a\<close> with \<open>Inl\<close> for the raised exception. \<open>LibraryError\<close> stands for
  any exception class raised inside the external structure library.
\<close>

datatype py_error =
    FileNotFoundError
  | FileExistsError
  | IsADirectoryError
  | StopIteration
  | IndexError
  | ValueError
  | KeyError
  | TypeError
  | LibraryError

text \<open>
  A Python float: a finite value (the real number it denotes), the two infinities, or NaN.
  Only the comparison \<open><\<close> of floats is used by the script; every comparison with NaN is
  false.
\<close>

datatype pyfloat = Fin real | PosInf | NegInf | NaN

fun float_lt :: "pyfloat \<Rightarrow> pyfloat \<Rightarrow> bool" where
  "float_lt (Fin a) (Fin b) = (a < b)"
| "float_lt (Fin a) PosInf = True"
| "float_lt NegInf (Fin b) = True"
| "float_lt NegInf PosInf = True"
| "float_lt _ _ = False"

text \<open>\<open>a > b\<close> of the source is \<open>b < a\<close>.\<close>

definition float_gt :: "pyfloat \<Rightarrow> pyfloat \<Rightarrow> bool" where
  "float_gt a b = float_lt b a"

section \<open>External collaborators\<close>

text \<open>
  The CSV reader and writer, the conversions \<^verbatim>\<open>float(s)\<close> and \<^verbatim>\<open>int(s)\<close> (\<open>None\<close> is
  \<^verbatim>\<open>ValueError\<close>), \<^verbatim>\<open>str.strip\<close>, the float formatting \<^verbatim>\<open>f"{x:.nf}"\<close>, the structure parser
  \<^verbatim>\<open>Structure.from_str\<close>, the structure matcher's \<^verbatim>\<open>fit\<close> and the coordination
  environment analysis are library code; they are parameters of the model. \<open>'s\<close> is the
  type of parsed structures.
\<close>

record 's collaborators =
  csv_reader :: "string \<Rightarrow> string list list"
  csv_writer :: "string list list \<Rightarrow> string"
  float_of_str :: "string \<Rightarrow> pyfloat option"
  int_of_str :: "string \<Rightarrow> int option"
  str_strip :: "string \<Rightarrow> string"
  format_float :: "nat \<Rightarrow> pyfloat \<Rightarrow> string"
  structure_from_str :: "string \<Rightarrow> py_error + 's"
  matcher_fit :: "'s \<Rightarrow> 's \<Rightarrow> py_error + bool"
  environments_of :: "'s \<Rightarrow> py_error + string"

section \<open>Paths and the file system\<close>

text \<open>
  \<^verbatim>\<open>os.path.join\<close> on POSIX, for two components: an absolute second component replaces
  the first; otherwise the components are concatenated with one separator unless the first
  is empty or already ends with one.
\<close>

definition path_join :: "string \<Rightarrow> string \<Rightarrow> string" where
  "path_join a b =
     (if b \<noteq> [] \<and> hd b = CHR ''/'' then b
      else if a = [] \<or> last a = CHR ''/'' then a @ b
      else a @ ''/'' @ b)"

definition path_join3 :: "string \<Rightarrow> string \<Rightarrow> string \<Rightarrow> string" where
  "path_join3 a b c = path_join (path_join a b) c"

text \<open>
  The file system: text files by path, and the set of directories. Paths are compared as
  written (no normalisation); permissions and device failures are outside the model.
\<close>

record fsys =
  files :: "string \<rightharpoonup> string"
  dirs :: "string set"

definition path_exists :: "fsys \<Rightarrow> string \<Rightarrow> bool" where
  "path_exists fs p = (files fs p \<noteq> None \<or> p \<in> dirs fs)"

text \<open>\<^verbatim>\<open>open(p, "rt")\<close> followed by reading the whole file.\<close>

definition read_text :: "fsys \<Rightarrow> string \<Rightarrow> py_error + string" where
  "read_text fs p =
     (case files fs p of
        Some content \<Rightarrow> Inr content
      | None \<Rightarrow> if p \<in> dirs fs then Inl IsADirectoryError else Inl FileNotFoundError)"

text \<open>\<^verbatim>\<open>line[i]\<close> on a CSV row: \<^verbatim>\<open>IndexError\<close> when the row is too short.\<close>

definition field :: "string list \<Rightarrow> nat \<Rightarrow> py_error + string" where
  "field line i = (if i < length line then Inr (line ! i) else Inl IndexError)"

text \<open>\<^verbatim>\<open>float(line[i])\<close>.\<close>

definition float_field :: "'s collaborators \<Rightarrow> string list \<Rightarrow> nat \<Rightarrow> py_error + pyfloat" where
  "float_field env line i =
     (case field line i of
        Inl e \<Rightarrow> Inl e
      | Inr s \<Rightarrow> (case float_of_str env s of None \<Rightarrow> Inl ValueError | Some x \<Rightarrow> Inr x))"

section \<open>Run Result Reader\<close>

subsection \<open>\<^verbatim>\<open>get_best_cif\<close>\<close>

text \<open>
  The loop over the candidate rows, with the loop variables \<^verbatim>\<open>best_score\<close> and
  \<^verbatim>\<open>best_cif_fname\<close> as accumulators. A row is read as \<^verbatim>\<open>line[0]\<close>, then
  \<^verbatim>\<open>float(line[2])\<close>; either can raise.
\<close>

fun best_row_loop ::
  "'s collaborators \<Rightarrow> string list list \<Rightarrow> pyfloat \<Rightarrow> string option \<Rightarrow>
     py_error + (pyfloat \<times> string option)" where
  "best_row_loop env [] best_score best_cif_fname = Inr (best_score, best_cif_fname)"
| "best_row_loop env (line # rest) best_score best_cif_fname =
     (case field line 0 of
        Inl e \<Rightarrow> Inl e
      | Inr cif_fname \<Rightarrow>
          (case float_field env line 2 of
             Inl e \<Rightarrow> Inl e
           | Inr score \<Rightarrow>
               if float_lt score best_score
               then best_row_loop env rest score (Some cif_fname)
               else best_row_loop env rest best_score best_cif_fname))"

text \<open>
  \<^verbatim>\<open>next(reader)\<close> on a table without a header row raises \<^verbatim>\<open>StopIteration\<close>. When no
  row was selected, \<^verbatim>\<open>best_cif_fname\<close> is still \<^verbatim>\<open>None\<close> and \<^verbatim>\<open>os.path.join\<close> raises
  \<^verbatim>\<open>TypeError\<close>.
\<close>

definition get_best_cif ::
  "'s collaborators \<Rightarrow> fsys \<Rightarrow> string \<Rightarrow> string \<Rightarrow> py_error + string" where
  "get_best_cif env fs challenge_path formula =
     (case read_text fs (path_join3 challenge_path formula ''results.csv'') of
        Inl e \<Rightarrow> Inl e
      | Inr txt \<Rightarrow>
          (case csv_reader env txt of
             [] \<Rightarrow> Inl StopIteration
           | header_line # data \<Rightarrow>
               (case best_row_loop env data PosInf None of
                  Inl e \<Rightarrow> Inl e
                | Inr (best_score, best_cif_fname) \<Rightarrow>
                    (case best_cif_fname of
                       None \<Rightarrow> Inl TypeError
                     | Some fname \<Rightarrow>
                         read_text fs (path_join3 challenge_path formula fname)))))"

subsection \<open>\<^verbatim>\<open>read_results_csv\<close> and \<^verbatim>\<open>read_props\<close>\<close>

record summary =
  validity_rate :: pyfloat
  mean_E :: pyfloat
  min_E :: pyfloat
  best_cif :: "string option"

text \<open>The conditional expression of line 82: the candidate lookup runs only for a positive rate.\<close>

definition best_cif_if_valid ::
  "'s collaborators \<Rightarrow> fsys \<Rightarrow> string \<Rightarrow> string \<Rightarrow> pyfloat \<Rightarrow> py_error + string option" where
  "best_cif_if_valid env fs challenge_path formula rate =
     (if float_gt rate (Fin 0)
      then (case get_best_cif env fs challenge_path formula of
              Inl e \<Rightarrow> Inl e
            | Inr cif \<Rightarrow> Inr (Some cif))
      else Inr None)"

fun summary_loop ::
  "'s collaborators \<Rightarrow> fsys \<Rightarrow> string \<Rightarrow> string list list \<Rightarrow> (string \<rightharpoonup> summary) \<Rightarrow>
     py_error + (string \<rightharpoonup> summary)" where
  "summary_loop env fs challenge_path [] results = Inr results"
| "summary_loop env fs challenge_path (line # rest) results =
     (case field line 0 of
        Inl e \<Rightarrow> Inl e
      | Inr formula \<Rightarrow>
     (case float_field env line 1 of
        Inl e \<Rightarrow> Inl e
      | Inr rate \<Rightarrow>
     (case float_field env line 2 of
        Inl e \<Rightarrow> Inl e
      | Inr mean \<Rightarrow>
     (case float_field env line 3 of
        Inl e \<Rightarrow> Inl e
      | Inr mn \<Rightarrow>
     (case best_cif_if_valid env fs challenge_path formula rate of
        Inl e \<Rightarrow> Inl e
      | Inr best \<Rightarrow>
          summary_loop env fs challenge_path rest
            (results(formula \<mapsto>
               \<lparr>validity_rate = rate, mean_E = mean, min_E = mn, best_cif = best\<rparr>)))))))"

definition read_results_csv ::
  "'s collaborators \<Rightarrow> fsys \<Rightarrow> string \<Rightarrow> py_error + (string \<rightharpoonup> summary)" where
  "read_results_csv env fs challenge_path =
     (case read_text fs (path_join challenge_path ''results.csv'') of
        Inl e \<Rightarrow> Inl e
      | Inr txt \<Rightarrow>
          (case csv_reader env txt of
             [] \<Rightarrow> Inl StopIteration
           | header_line # data \<Rightarrow> summary_loop env fs challenge_path data Map.empty))"

text \<open>The result is the tuple \<^verbatim>\<open>(validity_rate, min_E, mean_E, best_cif)\<close>, in this order.\<close>

definition read_props ::
  "'s collaborators \<Rightarrow> fsys \<Rightarrow> string \<Rightarrow> string \<Rightarrow>
     py_error + (pyfloat \<times> pyfloat \<times> pyfloat \<times> string option)" where
  "read_props env fs fname formula =
     (case read_results_csv env fs fname of
        Inl e \<Rightarrow> Inl e
      | Inr results \<Rightarrow>
          Inr (case results formula of
                 Some r \<Rightarrow> (validity_rate r, min_E r, mean_E r, best_cif r)
               | None \<Rightarrow> (Fin 0, NaN, NaN, None)))"

subsection \<open>\<^verbatim>\<open>is_valid_on_first\<close>\<close>

definition is_valid_on_first :: "'s collaborators \<Rightarrow> fsys \<Rightarrow> string \<Rightarrow> py_error + bool" where
  "is_valid_on_first env fs formula_dir =
     (let fname = path_join formula_dir ''results.csv'' in
      if \<not> path_exists fs fname then Inr False
      else
        (case read_text fs fname of
           Inl e \<Rightarrow> Inl e
         | Inr txt \<Rightarrow>
             (case csv_reader env txt of
                [] \<Rightarrow> Inl StopIteration
              | header_line # data \<Rightarrow>
                  (case data of
                     [] \<Rightarrow> Inl StopIteration
                   | first_line # rest \<Rightarrow>
                       (case field first_line 1 of
                          Inl e \<Rightarrow> Inl e
                        | Inr s \<Rightarrow>
                            (case int_of_str env s of
                               None \<Rightarrow> Inl ValueError
                             | Some iteration \<Rightarrow> Inr (iteration = 1)))))))"

section \<open>Match Evaluator\<close>

text \<open>
  \<^verbatim>\<open>matches_true\<close> returns its result together with the collaborator calls it made, in
  order. The two parses stand before the \<^verbatim>\<open>try\<close>; only \<^verbatim>\<open>fit\<close> is inside it, and any
  exception of \<^verbatim>\<open>fit\<close> becomes \<^verbatim>\<open>False\<close>.
\<close>

datatype 's ext_call = ParseStructure string | MatcherFit 's 's

definition matches_true ::
  "'s collaborators \<Rightarrow> string \<Rightarrow> string option \<Rightarrow> (py_error + bool) \<times> 's ext_call list" where
  "matches_true env true_cif best =
     (case best of
        None \<Rightarrow> (Inr False, [])
      | Some gen_cif \<Rightarrow>
          (case structure_from_str env true_cif of
             Inl e \<Rightarrow> (Inl e, [ParseStructure true_cif])
           | Inr true_struct \<Rightarrow>
               (case structure_from_str env gen_cif of
                  Inl e \<Rightarrow> (Inl e, [ParseStructure true_cif, ParseStructure gen_cif])
                | Inr gen_struct \<Rightarrow>
                    (Inr (case matcher_fit env true_struct gen_struct of
                            Inl e \<Rightarrow> False
                          | Inr is_match \<Rightarrow> is_match),
                     [ParseStructure true_cif, ParseStructure gen_cif,
                      MatcherFit true_struct gen_struct]))))"

section \<open>Energy Reference Reader\<close>

fun energies_loop ::
  "'s collaborators \<Rightarrow> string list list \<Rightarrow> (string \<rightharpoonup> pyfloat) \<Rightarrow>
     py_error + (string \<rightharpoonup> pyfloat)" where
  "energies_loop env [] energies = Inr energies"
| "energies_loop env (line # rest) energies =
     (case field line 0 of
        Inl e \<Rightarrow> Inl e
      | Inr formula \<Rightarrow>
          (case float_field env line 1 of
             Inl e \<Rightarrow> Inl e
           | Inr energy \<Rightarrow> energies_loop env rest (energies(formula \<mapsto> energy))))"

definition read_alignn_energies ::
  "'s collaborators \<Rightarrow> fsys \<Rightarrow> string \<Rightarrow> py_error + (string \<rightharpoonup> pyfloat)" where
  "read_alignn_energies env fs fname =
     (case read_text fs fname of
        Inl e \<Rightarrow> Inl e
      | Inr txt \<Rightarrow>
          (case csv_reader env txt of
             [] \<Rightarrow> Inl StopIteration
           | header_line # data \<Rightarrow> energies_loop env data Map.empty))"

section \<open>Dataset Loader\<close>

text \<open>\<^verbatim>\<open>s.split(c)\<close> for a one-character separator: never empty, \<^verbatim>\<open>"".split("/") == [""]\<close>.\<close>

fun split_char :: "char \<Rightarrow> string \<Rightarrow> string list" where
  "split_char c [] = [[]]"
| "split_char c (x # xs) =
     (if x = c then [] # split_char c xs
      else (case split_char c xs of
              [] \<Rightarrow> [[x]]
            | w # ws \<Rightarrow> (x # w) # ws))"

text \<open>
  The rows of \<^verbatim>\<open>metadata.csv\<close> after its header: \<^verbatim>\<open>line[0].strip()\<close>,
  \<^verbatim>\<open>line[1].strip()\<close>, and the formula joins the training set when the source label is
  \<^verbatim>\<open>"training set"\<close>.
\<close>

fun metadata_loop ::
  "'s collaborators \<Rightarrow> string list list \<Rightarrow> string set \<Rightarrow> py_error + string set" where
  "metadata_loop env [] training = Inr training"
| "metadata_loop env (line # rest) training =
     (case field line 0 of
        Inl e \<Rightarrow> Inl e
      | Inr f \<Rightarrow>
          (case field line 1 of
             Inl e \<Rightarrow> Inl e
           | Inr src \<Rightarrow>
               metadata_loop env rest
                 (if str_strip env src = ''training set''
                  then insert (str_strip env f) training else training)))"

text \<open>
  The archive is given opened, as its entries in the order of \<^verbatim>\<open>filelist\<close>, each file
  name paired with what \<^verbatim>\<open>input_zip.read\<close> returns for it, already decoded. The
  challenge set is a Python dictionary: an association list in insertion order, a later
  value for a key replacing the earlier one in place.
\<close>

fun challenge_loop ::
  "'s collaborators \<Rightarrow> (string \<times> string) list \<Rightarrow> (string \<times> string) list \<Rightarrow> string set \<Rightarrow>
     py_error + ((string \<times> string) list \<times> string set)" where
  "challenge_loop env [] challenge_set training = Inr (challenge_set, training)"
| "challenge_loop env ((filename, content) # rest) challenge_set training =
     (let components = split_char CHR ''/'' filename in
      if last components = ''metadata.csv'' then
        (case csv_reader env content of
           [] \<Rightarrow> Inl StopIteration
         | header_line # data \<Rightarrow>
             (case metadata_loop env data training of
                Inl e \<Rightarrow> Inl e
              | Inr training' \<Rightarrow> challenge_loop env rest challenge_set training'))
      else if length components < 3 \<or> length (last components) = 0 then
        challenge_loop env rest challenge_set training
      else
        (let formula = components ! 1; fname = components ! 2 in
         if suffix ''pymatgen.cif'' fname
         then challenge_loop env rest (AList.update formula content challenge_set) training
         else challenge_loop env rest challenge_set training))"

definition read_challenge_set ::
  "'s collaborators \<Rightarrow> (string \<times> string) list \<Rightarrow>
     py_error + ((string \<times> string) list \<times> string set)" where
  "read_challenge_set env input_zip = challenge_loop env input_zip [] {}"

section \<open>Environment Reporter and output files\<close>

text \<open>
  \<^verbatim>\<open>open(p, "wt")\<close> and \<^verbatim>\<open>write\<close>. Every write of the script goes to a directory it has
  just created, so the parent directory is not checked.
\<close>

definition write_text :: "fsys \<Rightarrow> string \<Rightarrow> string \<Rightarrow> py_error + fsys" where
  "write_text fs p content =
     (if p \<in> dirs fs then Inl IsADirectoryError
      else Inr (fs\<lparr>files := (files fs)(p \<mapsto> content)\<rparr>))"

text \<open>\<^verbatim>\<open>os.makedirs(p)\<close> without \<^verbatim>\<open>exist_ok\<close>: an existing path is an error.\<close>

definition makedirs :: "fsys \<Rightarrow> string \<Rightarrow> py_error + fsys" where
  "makedirs fs p =
     (if path_exists fs p then Inl FileExistsError
      else Inr (fs\<lparr>dirs := insert p (dirs fs)\<rparr>))"

text \<open>\<^verbatim>\<open>shutil.rmtree(p)\<close> for a directory path written with its final separator.\<close>

definition rmtree :: "fsys \<Rightarrow> string \<Rightarrow> fsys" where
  "rmtree fs p =
     fs\<lparr>files := (\<lambda>q. if prefix p q then None else files fs q),
        dirs := {q \<in> dirs fs. \<not> prefix p q}\<rparr>"

text \<open>
  \<^verbatim>\<open>analyze_local_environments\<close>: the structure is parsed, everything after that is the
  geometry finder and the strategy, with the three cut-offs fixed by the script.
\<close>

definition analyze_local_environments :: "'s collaborators \<Rightarrow> string \<Rightarrow> py_error + string" where
  "analyze_local_environments env cif =
     (case structure_from_str env cif of
        Inl e \<Rightarrow> Inl e
      | Inr structure \<Rightarrow> environments_of env structure)"

definition write_file :: "fsys \<Rightarrow> string \<Rightarrow> string \<Rightarrow> string \<Rightarrow> string \<Rightarrow> py_error + fsys" where
  "write_file fs root_dir formula content fname =
     write_text fs (path_join3 root_dir formula fname) content"

definition write_cif_and_envs ::
  "'s collaborators \<Rightarrow> fsys \<Rightarrow> string \<Rightarrow> string \<Rightarrow> string \<Rightarrow> string \<Rightarrow> py_error + fsys" where
  "write_cif_and_envs env fs root_dir formula cif name =
     (case write_file fs root_dir formula cif (name @ ''.cif'') of
        Inl e \<Rightarrow> Inl e
      | Inr fs1 \<Rightarrow>
          (case analyze_local_environments env cif of
             Inl e \<Rightarrow> Inl e
           | Inr environments \<Rightarrow>
               write_file fs1 root_dir formula environments (name @ ''_envs.txt'')))"

section \<open>Aggregator\<close>

definition model :: string where
  "model = ''cif_model_35''"

definition model_dir :: string where
  "model_dir = ''../out''"

definition out_dir :: string where
  "out_dir = ''../out/cif_model_35_ChallengeSet-v1_analysis/''"

definition alignn_energies_path :: string where
  "alignn_energies_path = ''../out/ChallengeSet-v1.alignn_energies.csv''"

definition header :: "string list" where
  "header = [''formula'', ''seen_in_trainig'', ''true_E'', ''includes_space_group'',
             ''mean_E'', ''min_E'', ''pct_valid'', ''valid_on_first'', ''matches_true'']"

text \<open>
  The state of the script from line 232 on: the file system, the four two-slot counters
  and the accumulated rows. Console output is not part of the state.
\<close>

record run_state =
  disk :: fsys
  validity_count :: "nat list"
  valid_on_first_count :: "nat list"
  match_true_count_all :: "nat list"
  match_true_count_unseen :: "nat list"
  rows :: "string list list"

text \<open>
  The script writes the per-variant block twice, once per run; the two copies differ in the
  run directory, the name of the written candidate, the space-group label and the counter
  slot. \<open>variant\<close> names the copy. The string \<^verbatim>\<open>seen\<close> is computed in the first copy
  and read again in the second; it depends on the formula only.
\<close>

datatype variant = NoSpaceGroup | WithSpaceGroup

fun slot :: "variant \<Rightarrow> nat" where
  "slot NoSpaceGroup = 0"
| "slot WithSpaceGroup = 1"

fun run_dir :: "variant \<Rightarrow> string" where
  "run_dir NoSpaceGroup = path_join model_dir (model @ ''_challenge'')"
| "run_dir WithSpaceGroup = path_join model_dir (model @ ''_challenge_sg'')"

fun best_name :: "variant \<Rightarrow> string" where
  "best_name NoSpaceGroup = ''best_gen_no_spacegroup''"
| "best_name WithSpaceGroup = ''best_gen_with_spacegroup''"

fun sg_label :: "variant \<Rightarrow> string" where
  "sg_label NoSpaceGroup = ''no''"
| "sg_label WithSpaceGroup = ''yes''"

definition yes_no :: "bool \<Rightarrow> string" where
  "yes_no b = (if b then ''yes'' else ''no'')"

text \<open>\<^verbatim>\<open>xs[i] += 1\<close>.\<close>

definition bump :: "nat list \<Rightarrow> nat \<Rightarrow> nat list" where
  "bump xs i = xs[i := xs ! i + 1]"

text \<open>The four counter updates of a block, in the order of the source.\<close>

definition count_validity :: "variant \<Rightarrow> pyfloat \<Rightarrow> run_state \<Rightarrow> run_state" where
  "count_validity v rate st =
     (if float_gt rate (Fin 0)
      then st\<lparr>validity_count := bump (validity_count st) (slot v)\<rparr> else st)"

definition count_valid_on_first :: "variant \<Rightarrow> string \<Rightarrow> run_state \<Rightarrow> run_state" where
  "count_valid_on_first v valid_on_first st =
     (if valid_on_first = ''yes''
      then st\<lparr>valid_on_first_count := bump (valid_on_first_count st) (slot v)\<rparr> else st)"

definition count_match_all :: "variant \<Rightarrow> run_state \<Rightarrow> run_state" where
  "count_match_all v st = st\<lparr>match_true_count_all := bump (match_true_count_all st) (slot v)\<rparr>"

definition count_match_unseen :: "variant \<Rightarrow> run_state \<Rightarrow> run_state" where
  "count_match_unseen v st =
     st\<lparr>match_true_count_unseen := bump (match_true_count_unseen st) (slot v)\<rparr>"

definition count_match :: "variant \<Rightarrow> string \<Rightarrow> string \<Rightarrow> run_state \<Rightarrow> run_state" where
  "count_match v is_match seen st =
     (if is_match = ''yes''
      then (let st1 = count_match_all v st in
            if \<not> prefix ''*'' seen then count_match_unseen v st1 else st1)
      else st)"

definition update_counts ::
  "variant \<Rightarrow> pyfloat \<Rightarrow> string \<Rightarrow> string \<Rightarrow> string \<Rightarrow> run_state \<Rightarrow> run_state" where
  "update_counts v rate valid_on_first is_match seen st =
     count_match v is_match seen (count_valid_on_first v valid_on_first (count_validity v rate st))"

text \<open>\<^verbatim>\<open>if best_cif:\<close> is false for \<^verbatim>\<open>None\<close> and for the empty string.\<close>

definition write_best ::
  "'s collaborators \<Rightarrow> fsys \<Rightarrow> string \<Rightarrow> string option \<Rightarrow> string \<Rightarrow> py_error + fsys" where
  "write_best env fs formula best name =
     (case best of
        None \<Rightarrow> Inr fs
      | Some cif \<Rightarrow>
          if cif = [] then Inr fs else write_cif_and_envs env fs out_dir formula cif name)"

definition result_row ::
  "'s collaborators \<Rightarrow> string set \<Rightarrow> string \<Rightarrow> pyfloat \<Rightarrow> variant \<Rightarrow> pyfloat \<Rightarrow> pyfloat \<Rightarrow>
     pyfloat \<Rightarrow> string \<Rightarrow> string \<Rightarrow> string list" where
  "result_row env training formula alignn_E v mean mn rate valid_on_first is_match =
     [formula,
      (if formula \<in> training then ''yes'' else ''no''),
      format_float env 5 alignn_E,
      sg_label v,
      format_float env 5 mean,
      format_float env 5 mn,
      format_float env 2 rate,
      valid_on_first,
      is_match]"

definition process_variant ::
  "'s collaborators \<Rightarrow> string set \<Rightarrow> string \<Rightarrow> string \<Rightarrow> pyfloat \<Rightarrow> variant \<Rightarrow> run_state \<Rightarrow>
     py_error + run_state" where
  "process_variant env training formula true_cif alignn_E v st =
     (case read_props env (disk st) (run_dir v) formula of
        Inl e \<Rightarrow> Inl e
      | Inr (rate, mn, mean, best) \<Rightarrow>
     (case is_valid_on_first env (disk st) (path_join (run_dir v) formula) of
        Inl e \<Rightarrow> Inl e
      | Inr first_ok \<Rightarrow>
     (case fst (matches_true env true_cif best) of
        Inl e \<Rightarrow> Inl e
      | Inr matched \<Rightarrow>
     (case write_best env (disk st) formula best (best_name v) of
        Inl e \<Rightarrow> Inl e
      | Inr disk' \<Rightarrow>
          (let valid_on_first = yes_no first_ok;
               is_match = yes_no matched;
               seen = (if formula \<in> training then ''* '' else [])
           in Inr (update_counts v rate valid_on_first is_match seen
                     (st\<lparr>disk := disk',
                         rows := rows st @
                           [result_row env training formula alignn_E v mean mn rate
                              valid_on_first is_match]\<rparr>)))))))"

definition process_formula ::
  "'s collaborators \<Rightarrow> (string \<times> string) list \<Rightarrow> string set \<Rightarrow> (string \<rightharpoonup> pyfloat) \<Rightarrow>
     string \<Rightarrow> run_state \<Rightarrow> py_error + run_state" where
  "process_formula env challenge_set training alignn_energies formula st =
     (case makedirs (disk st) (path_join out_dir formula) of
        Inl e \<Rightarrow> Inl e
      | Inr d1 \<Rightarrow>
     (case map_of challenge_set formula of
        None \<Rightarrow> Inl KeyError
      | Some true_cif \<Rightarrow>
     (case alignn_energies formula of
        None \<Rightarrow> Inl KeyError
      | Some alignn_E \<Rightarrow>
     (case write_cif_and_envs env d1 out_dir formula true_cif ''true'' of
        Inl e \<Rightarrow> Inl e
      | Inr d2 \<Rightarrow>
     (case process_variant env training formula true_cif alignn_E NoSpaceGroup
             (st\<lparr>disk := d2\<rparr>) of
        Inl e \<Rightarrow> Inl e
      | Inr st1 \<Rightarrow>
          process_variant env training formula true_cif alignn_E WithSpaceGroup st1)))))"

fun main_loop ::
  "'s collaborators \<Rightarrow> (string \<times> string) list \<Rightarrow> string set \<Rightarrow> (string \<rightharpoonup> pyfloat) \<Rightarrow>
     string list \<Rightarrow> run_state \<Rightarrow> py_error + run_state" where
  "main_loop env challenge_set training alignn_energies [] st = Inr st"
| "main_loop env challenge_set training alignn_energies (formula # rest) st =
     (case process_formula env challenge_set training alignn_energies formula st of
        Inl e \<Rightarrow> Inl e
      | Inr st' \<Rightarrow> main_loop env challenge_set training alignn_energies rest st')"

definition initial_state :: "fsys \<Rightarrow> run_state" where
  "initial_state fs =
     \<lparr>disk = fs, validity_count = [0, 0], valid_on_first_count = [0, 0],
      match_true_count_all = [0, 0], match_true_count_unseen = [0, 0], rows = []\<rparr>"

text \<open>Lines 226 to 230: an existing output directory is removed, then it is created.\<close>

definition reset_out_dir :: "fsys \<Rightarrow> py_error + fsys" where
  "reset_out_dir fs =
     makedirs (if path_exists fs out_dir \<and> out_dir \<in> dirs fs then rmtree fs out_dir else fs)
       out_dir"

text \<open>
  The script: the energy table and the archive are read, the output directory is reset,
  the formulas are processed in sorted order and the consolidated table is written.
  \<^verbatim>\<open>sorted\<close> compares strings code point by code point; on strings as UTF-8 bytes this is
  the lexicographic order of the bytes, which is the order of \<open>sort\<close> on \<open>string\<close> here.
\<close>

definition main ::
  "'s collaborators \<Rightarrow> (string \<times> string) list \<Rightarrow> fsys \<Rightarrow> py_error + run_state" where
  "main env input_zip fs =
     (case read_alignn_energies env fs alignn_energies_path of
        Inl e \<Rightarrow> Inl e
      | Inr alignn_energies \<Rightarrow>
     (case read_challenge_set env input_zip of
        Inl e \<Rightarrow> Inl e
      | Inr (challenge_set, training) \<Rightarrow>
     (case reset_out_dir fs of
        Inl e \<Rightarrow> Inl e
      | Inr fs1 \<Rightarrow>
     (case main_loop env challenge_set training alignn_energies
             (sort (map fst challenge_set)) (initial_state fs1) of
        Inl e \<Rightarrow> Inl e
      | Inr st \<Rightarrow>
          (case write_text (disk st) (path_join out_dir ''results.csv'')
                  (csv_writer env (header # rows st)) of
             Inl e \<Rightarrow> Inl e
           | Inr fs2 \<Rightarrow> Inr (st\<lparr>disk := fs2\<rparr>))))))"

section \<open>Specification vocabulary and a small concrete world\<close>

text \<open>The score of a candidate row whose third field converts; NaN stands for a row without one.\<close>

definition score_of :: "'s collaborators \<Rightarrow> string list \<Rightarrow> pyfloat" where
  "score_of env line = (case float_field env line 2 of Inl e \<Rightarrow> NaN | Inr x \<Rightarrow> x)"

text \<open>The counters of matches: two slots each, the unseen matches never above all matches.\<close>

definition counts_ok :: "run_state \<Rightarrow> bool" where
  "counts_ok st =
     (length (match_true_count_all st) = 2 \<and> length (match_true_count_unseen st) = 2 \<and>
      match_true_count_unseen st ! 0 \<le> match_true_count_all st ! 0 \<and>
      match_true_count_unseen st ! 1 \<le> match_true_count_all st ! 1)"

text \<open>The header the specification lists for the consolidated table.\<close>

definition spec_header :: "string list" where
  "spec_header = [''formula'', ''seen_in_training'', ''true_E'', ''includes_space_group'',
                  ''mean_E'', ''min_E'', ''pct_valid'', ''valid_on_first'', ''matches_true'']"

text \<open>
  Collaborators for concrete runs: a CSV dialect without quoting (rows end with a line
  feed, fields are separated by commas), conversions by table, structures that are their
  own text and parse when the text starts with \<^verbatim>\<open>data_\<close>, and a matcher that compares
  texts.
\<close>

definition demo_lines :: "string \<Rightarrow> string list" where
  "demo_lines txt =
     (let ls = split_char (CHR 0x0A) txt in if last ls = [] then butlast ls else ls)"

definition demo_csv_reader :: "string \<Rightarrow> string list list" where
  "demo_csv_reader txt =
     map (\<lambda>l. if l = [] then [] else split_char CHR '','' l) (demo_lines txt)"

fun join_with :: "string \<Rightarrow> string list \<Rightarrow> string" where
  "join_with sep [] = []"
| "join_with sep [x] = x"
| "join_with sep (x # y # ys) = x @ sep @ join_with sep (y # ys)"

definition demo_csv_writer :: "string list list \<Rightarrow> string" where
  "demo_csv_writer table = concat (map (\<lambda>r. join_with '','' r @ [CHR 0x0D, CHR 0x0A]) table)"

definition demo_float_of_str :: "string \<Rightarrow> pyfloat option" where
  "demo_float_of_str =
     map_of [(''0.0'', Fin 0), (''0.5'', Fin (1 / 2)), (''1.0'', Fin 1), (''3.0'', Fin 3),
             (''5.0'', Fin 5), (''-1.5'', Fin (- 3 / 2)), (''inf'', PosInf), (''nan'', NaN)]"

definition demo_int_of_str :: "string \<Rightarrow> int option" where
  "demo_int_of_str = map_of [(''1'', 1), (''2'', 2), (''3'', 3)]"

definition demo_format_float :: "nat \<Rightarrow> pyfloat \<Rightarrow> string" where
  "demo_format_float n x =
     (case x of
        NaN \<Rightarrow> ''nan''
      | PosInf \<Rightarrow> ''inf''
      | NegInf \<Rightarrow> ''-inf''
      | Fin r \<Rightarrow>
          (if r = 0 then ''0.0'' else if r = 1 / 2 then ''0.5'' else if r = 3 then ''3.0''
           else if r = 5 then ''5.0'' else if r = - 3 / 2 then ''-1.5'' else ''1.0'')
          @ replicate (n - 1) CHR ''0'')"

definition demo_strip :: "string \<Rightarrow> string" where
  "demo_strip s =
     rev (dropWhile (\<lambda>c. c = CHR '' '') (rev (dropWhile (\<lambda>c. c = CHR '' '') s)))"

definition demo_env :: "string collaborators" where
  "demo_env =
     \<lparr>csv_reader = demo_csv_reader, csv_writer = demo_csv_writer,
      float_of_str = demo_float_of_str, int_of_str = demo_int_of_str,
      str_strip = demo_strip, format_float = demo_format_float,
      structure_from_str = (\<lambda>s. if prefix ''data_'' s then Inr s else Inl LibraryError),
      matcher_fit = (\<lambda>a b. Inr (a = b)),
      environments_of = (\<lambda>s. Inr (''sites of '' @ s))\<rparr>"

definition demo_table :: "string list \<Rightarrow> string" where
  "demo_table ls = concat (map (\<lambda>l. l @ [CHR 0x0A]) ls)"

text \<open>
  A run directory \<^verbatim>\<open>run\<close>: \<^verbatim>\<open>NaCl\<close> has two candidates, \<^verbatim>\<open>KCl\<close> has a summary row
  with a positive rate and a candidate table with one row of score \<^verbatim>\<open>inf\<close>, \<^verbatim>\<open>MgO\<close>
  has a candidate table with a header only, \<^verbatim>\<open>Li2O\<close> has nothing. The directory
  \<^verbatim>\<open>gap\<close> is a run whose summary lists \<^verbatim>\<open>NaCl\<close> and then \<^verbatim>\<open>CaO\<close>, the candidate table
  of \<^verbatim>\<open>CaO\<close> missing.
\<close>

definition demo_fs :: fsys where
  "demo_fs =
     \<lparr>files = map_of
        [(''run/results.csv'',
            demo_table [''formula,validity_rate,mean_E,min_E'', ''NaCl,0.5,3.0,3.0'',
                        ''MgO,0.0,nan,nan'']),
         (''run/NaCl/results.csv'',
            demo_table [''cif,iteration,score'', ''c1.cif,2,5.0'', ''c2.cif,1,3.0'',
                        ''c3.cif,3,3.0'']),
         (''run/NaCl/c1.cif'', ''data_one''),
         (''run/NaCl/c2.cif'', ''data_two''),
         (''run/NaCl/c3.cif'', ''data_three''),
         (''run/KCl/results.csv'', demo_table [''cif,iteration,score'', ''k1.cif,1,inf'']),
         (''run/KCl/k1.cif'', ''data_k1''),
         (''run/MgO/results.csv'', demo_table [''cif,iteration,score'']),
         (''gap/results.csv'',
            demo_table [''formula,validity_rate,mean_E,min_E'', ''NaCl,0.5,3.0,3.0'',
                        ''CaO,0.5,1.0,1.0'']),
         (''gap/NaCl/results.csv'', demo_table [''cif,iteration,score'', ''c1.cif,1,5.0'']),
         (''gap/NaCl/c1.cif'', ''data_one'')],
      dirs = {''run'', ''run/NaCl'', ''run/KCl'', ''run/MgO'', ''gap'', ''gap/NaCl''}\<rparr>"

definition demo_NaCl_data :: "string list list" where
  "demo_NaCl_data =
     [[''c1.cif'', ''2'', ''5.0''], [''c2.cif'', ''1'', ''3.0''], [''c3.cif'', ''3'', ''3.0'']]"

text \<open>
  A world for the whole script: the archive lists \<^verbatim>\<open>NaCl\<close> (seen in training) before
  \<^verbatim>\<open>Li2O\<close>; the unconstrained run has two candidates for \<^verbatim>\<open>NaCl\<close>, the better one equal
  to the ground truth; the space-group run has an empty summary; no run has anything for
  \<^verbatim>\<open>Li2O\<close>.
\<close>

definition demo_zip :: "(string \<times> string) list" where
  "demo_zip =
     [(''ChallengeSet-v1/metadata.csv'', demo_table [''formula,source'', ''NaCl,training set'']),
      (''ChallengeSet-v1/NaCl/NaCl_pymatgen.cif'', ''data_two''),
      (''ChallengeSet-v1/Li2O/Li2O_pymatgen.cif'', ''data_Li2O'')]"

definition demo_disk_files :: "(string \<times> string) list" where
  "demo_disk_files =
     [(''../out/ChallengeSet-v1.alignn_energies.csv'',
         demo_table [''formula,energy'', ''NaCl,-1.5'', ''Li2O,-1.5'']),
      (''../out/cif_model_35_challenge/results.csv'',
         demo_table [''formula,validity_rate,mean_E,min_E'', ''NaCl,0.5,3.0,3.0'']),
      (''../out/cif_model_35_challenge/NaCl/results.csv'',
         demo_table [''cif,iteration,score'', ''c1.cif,2,5.0'', ''c2.cif,1,3.0'']),
      (''../out/cif_model_35_challenge/NaCl/c1.cif'', ''data_one''),
      (''../out/cif_model_35_challenge/NaCl/c2.cif'', ''data_two''),
      (''../out/cif_model_35_challenge_sg/results.csv'',
         demo_table [''formula,validity_rate,mean_E,min_E''])]"

definition demo_disk_dirs :: "string list" where
  "demo_disk_dirs =
     [''../out'', ''../out/cif_model_35_challenge'', ''../out/cif_model_35_challenge/NaCl'',
      ''../out/cif_model_35_challenge_sg'']"

definition demo_disk :: fsys where
  "demo_disk = \<lparr>files = map_of demo_disk_files, dirs = set demo_disk_dirs\<rparr>"

text \<open>The formula and the space-group label of a row of the consolidated table.\<close>

definition row_key :: "string list \<Rightarrow> string \<times> string" where
  "row_key r = (r ! 0, r ! 3)"

text \<open>Two rows per formula, the unconstrained one first.\<close>

definition expected_keys :: "string list \<Rightarrow> (string \<times> string) list" where
  "expected_keys formulas = concat (map (\<lambda>f. [(f, ''no''), (f, ''yes'')]) formulas)"

text \<open>
  \<open>changed_only_inside a b\<close>: from \<open>a\<close> to \<open>b\<close> no directory disappeared and nothing
  outside the output directory changed.
\<close>

definition changed_only_inside :: "fsys \<Rightarrow> fsys \<Rightarrow> bool" where
  "changed_only_inside a b =
     (dirs a \<subseteq> dirs b \<and>
      (\<forall>p. \<not> prefix out_dir p \<longrightarrow> files b p = files a p \<and> (p \<in> dirs b \<longrightarrow> p \<in> dirs a)))"

text \<open>
  A file system in which the output directory, when it is not there, has nothing below it.
\<close>

definition out_dir_wellformed :: "fsys \<Rightarrow> bool" where
  "out_dir_wellformed fs =
     (out_dir \<in> dirs fs \<or> (\<forall>p. prefix out_dir p \<longrightarrow> files fs p = None \<and> p \<notin> dirs fs))"

section \<open>Properties of the float comparison\<close>

lemma float_lt_irrefl: "\<not> float_lt a a"
  by (cases a) auto

lemma float_lt_trans: "float_lt a b \<Longrightarrow> float_lt b c \<Longrightarrow> float_lt a c"
  by (cases a; cases b; cases c) auto

lemma float_lt_asym: "float_lt a b \<Longrightarrow> \<not> float_lt b a"
  by (cases a; cases b) auto

lemma float_field_Inr_field:
  assumes "float_field env line i = Inr x"
  shows "field line i = Inr (line ! i) \<and> i < length line \<and> float_of_str env (line ! i) = Some x"
  using assms by (auto simp: float_field_def field_def split: if_splits option.splits)

lemma field0_of_float_field2:
  assumes "float_field env line 2 = Inr x"
  shows "field line 0 = Inr (line ! 0)"
  using float_field_Inr_field[OF assms] by (auto simp: field_def split: if_splits)

lemma score_of_Inr: "float_field env line 2 = Inr x \<Longrightarrow> score_of env line = x"
  by (simp add: score_of_def)

lemma best_row_loop_spec:
  assumes "\<forall>line\<in>set data. \<exists>x. float_field env line 2 = Inr x"
  shows "\<exists>rs rf. best_row_loop env data bs bf = Inr (rs, rf) \<and>
     ((rs = bs \<and> rf = bf \<and> (\<forall>line\<in>set data. \<not> float_lt (score_of env line) bs)) \<or>
      (\<exists>k<length data. rs = score_of env (data ! k) \<and> rf = Some (data ! k ! 0) \<and>
          float_lt rs bs \<and>
          (\<forall>j<length data. \<not> float_lt (score_of env (data ! j)) rs) \<and>
          (\<forall>j<k. score_of env (data ! j) \<noteq> rs)))"
  using assms
proof (induction data arbitrary: bs bf)
  case Nil
  then show ?case by simp
next
  case (Cons line rest)
  from Cons.prems obtain x where x: "float_field env line 2 = Inr x" by auto
  have f0: "field line 0 = Inr (line ! 0)" by (rule field0_of_float_field2[OF x])
  have sc: "score_of env line = x" by (rule score_of_Inr[OF x])
  have wf: "\<forall>l\<in>set rest. \<exists>x. float_field env l 2 = Inr x" using Cons.prems by simp
  show ?case
  proof (cases "float_lt x bs")
    case True
    have step: "best_row_loop env (line # rest) bs bf = best_row_loop env rest x (Some (line ! 0))"
      using x f0 True by simp
    from Cons.IH[OF wf, of x "Some (line ! 0)"] obtain rs rf where
      r: "best_row_loop env rest x (Some (line ! 0)) = Inr (rs, rf)" and
      d: "(rs = x \<and> rf = Some (line ! 0) \<and> (\<forall>l\<in>set rest. \<not> float_lt (score_of env l) x)) \<or>
          (\<exists>k<length rest. rs = score_of env (rest ! k) \<and> rf = Some (rest ! k ! 0) \<and>
             float_lt rs x \<and> (\<forall>j<length rest. \<not> float_lt (score_of env (rest ! j)) rs) \<and>
             (\<forall>j<k. score_of env (rest ! j) \<noteq> rs))" by blast
    from d show ?thesis
    proof
      assume a: "rs = x \<and> rf = Some (line ! 0) \<and> (\<forall>l\<in>set rest. \<not> float_lt (score_of env l) x)"
      have "\<forall>j<length (line # rest). \<not> float_lt (score_of env ((line # rest) ! j)) rs"
      proof (intro allI impI)
        fix j assume "j < length (line # rest)"
        then show "\<not> float_lt (score_of env ((line # rest) ! j)) rs"
          using a sc float_lt_irrefl by (cases j) auto
      qed
      then have "0 < length (line # rest) \<and> rs = score_of env ((line # rest) ! 0) \<and>
          rf = Some ((line # rest) ! 0 ! 0) \<and> float_lt rs bs \<and>
          (\<forall>j<length (line # rest). \<not> float_lt (score_of env ((line # rest) ! j)) rs) \<and>
          (\<forall>j<0. score_of env ((line # rest) ! j) \<noteq> rs)"
        using a sc True by simp
      then have ex: "\<exists>k<length (line # rest). rs = score_of env ((line # rest) ! k) \<and>
          rf = Some ((line # rest) ! k ! 0) \<and> float_lt rs bs \<and>
          (\<forall>j<length (line # rest). \<not> float_lt (score_of env ((line # rest) ! j)) rs) \<and>
          (\<forall>j<k. score_of env ((line # rest) ! j) \<noteq> rs)"
        by (rule exI[of _ 0])
      show ?thesis unfolding step r
        by (rule exI[of _ rs], rule exI[of _ rf], rule conjI[OF refl], rule disjI2, rule ex)
    next
      assume "\<exists>k<length rest. rs = score_of env (rest ! k) \<and> rf = Some (rest ! k ! 0) \<and>
             float_lt rs x \<and> (\<forall>j<length rest. \<not> float_lt (score_of env (rest ! j)) rs) \<and>
             (\<forall>j<k. score_of env (rest ! j) \<noteq> rs)"
      then obtain k where k: "k < length rest" "rs = score_of env (rest ! k)"
        "rf = Some (rest ! k ! 0)" "float_lt rs x"
        "\<forall>j<length rest. \<not> float_lt (score_of env (rest ! j)) rs"
        "\<forall>j<k. score_of env (rest ! j) \<noteq> rs" by blast
      have lower: "\<forall>j<length (line # rest). \<not> float_lt (score_of env ((line # rest) ! j)) rs"
      proof (intro allI impI)
        fix j assume "j < length (line # rest)"
        then show "\<not> float_lt (score_of env ((line # rest) ! j)) rs"
          using k(4,5) sc float_lt_asym by (cases j) auto
      qed
      have first: "\<forall>j<Suc k. score_of env ((line # rest) ! j) \<noteq> rs"
      proof (intro allI impI)
        fix j assume "j < Suc k"
        then show "score_of env ((line # rest) ! j) \<noteq> rs"
          using k(4,6) sc float_lt_irrefl by (cases j) auto
      qed
      have "Suc k < length (line # rest) \<and> rs = score_of env ((line # rest) ! Suc k) \<and>
          rf = Some ((line # rest) ! Suc k ! 0) \<and> float_lt rs bs"
        using k True float_lt_trans by auto
      with lower first have ex: "\<exists>k<length (line # rest). rs = score_of env ((line # rest) ! k) \<and>
          rf = Some ((line # rest) ! k ! 0) \<and> float_lt rs bs \<and>
          (\<forall>j<length (line # rest). \<not> float_lt (score_of env ((line # rest) ! j)) rs) \<and>
          (\<forall>j<k. score_of env ((line # rest) ! j) \<noteq> rs)"
        by (intro exI[of _ "Suc k"]) blast
      show ?thesis unfolding step r
        by (rule exI[of _ rs], rule exI[of _ rf], rule conjI[OF refl], rule disjI2, rule ex)
    qed
  next
    case False
    have step: "best_row_loop env (line # rest) bs bf = best_row_loop env rest bs bf"
      using x f0 False by simp
    from Cons.IH[OF wf, of bs bf] obtain rs rf where
      r: "best_row_loop env rest bs bf = Inr (rs, rf)" and
      d: "(rs = bs \<and> rf = bf \<and> (\<forall>l\<in>set rest. \<not> float_lt (score_of env l) bs)) \<or>
          (\<exists>k<length rest. rs = score_of env (rest ! k) \<and> rf = Some (rest ! k ! 0) \<and>
             float_lt rs bs \<and> (\<forall>j<length rest. \<not> float_lt (score_of env (rest ! j)) rs) \<and>
             (\<forall>j<k. score_of env (rest ! j) \<noteq> rs))" by blast
    from d show ?thesis
    proof
      assume "rs = bs \<and> rf = bf \<and> (\<forall>l\<in>set rest. \<not> float_lt (score_of env l) bs)"
      then have "rs = bs \<and> rf = bf \<and> (\<forall>l\<in>set (line # rest). \<not> float_lt (score_of env l) bs)"
        using False sc by simp
      then show ?thesis unfolding step r
        by (intro exI[of _ rs] exI[of _ rf] conjI[OF refl] disjI1)
    next
      assume "\<exists>k<length rest. rs = score_of env (rest ! k) \<and> rf = Some (rest ! k ! 0) \<and>
             float_lt rs bs \<and> (\<forall>j<length rest. \<not> float_lt (score_of env (rest ! j)) rs) \<and>
             (\<forall>j<k. score_of env (rest ! j) \<noteq> rs)"
      then obtain k where k: "k < length rest" "rs = score_of env (rest ! k)"
        "rf = Some (rest ! k ! 0)" "float_lt rs bs"
        "\<forall>j<length rest. \<not> float_lt (score_of env (rest ! j)) rs"
        "\<forall>j<k. score_of env (rest ! j) \<noteq> rs" by blast
      have nx: "\<not> float_lt x rs" using False k(4) float_lt_trans by blast
      have ne: "x \<noteq> rs" using False k(4) by auto
      have lower: "\<forall>j<length (line # rest). \<not> float_lt (score_of env ((line # rest) ! j)) rs"
      proof (intro allI impI)
        fix j assume "j < length (line # rest)"
        then show "\<not> float_lt (score_of env ((line # rest) ! j)) rs"
          using k(5) sc nx by (cases j) auto
      qed
      have first: "\<forall>j<Suc k. score_of env ((line # rest) ! j) \<noteq> rs"
      proof (intro allI impI)
        fix j assume "j < Suc k"
        then show "score_of env ((line # rest) ! j) \<noteq> rs"
          using k(6) sc ne by (cases j) auto
      qed
      have "Suc k < length (line # rest) \<and> rs = score_of env ((line # rest) ! Suc k) \<and>
          rf = Some ((line # rest) ! Suc k ! 0) \<and> float_lt rs bs"
        using k by auto
      with lower first have ex: "\<exists>k<length (line # rest). rs = score_of env ((line # rest) ! k) \<and>
          rf = Some ((line # rest) ! k ! 0) \<and> float_lt rs bs \<and>
          (\<forall>j<length (line # rest). \<not> float_lt (score_of env ((line # rest) ! j)) rs) \<and>
          (\<forall>j<k. score_of env ((line # rest) ! j) \<noteq> rs)"
        by (intro exI[of _ "Suc k"]) blast
      show ?thesis unfolding step r
        by (rule exI[of _ rs], rule exI[of _ rf], rule conjI[OF refl], rule disjI2, rule ex)
    qed
  qed
qed

section \<open>Best candidate selection\<close>

lemma demo_env_sel:
  "csv_reader demo_env = demo_csv_reader"
  "csv_writer demo_env = demo_csv_writer"
  "float_of_str demo_env = demo_float_of_str"
  "int_of_str demo_env = demo_int_of_str"
  "str_strip demo_env = demo_strip"
  "format_float demo_env = demo_format_float"
  "structure_from_str demo_env = (\<lambda>s. if prefix ''data_'' s then Inr s else Inl LibraryError)"
  "matcher_fit demo_env = (\<lambda>a b. Inr (a = b))"
  "environments_of demo_env = (\<lambda>s. Inr (''sites of '' @ s))"
  by (simp_all add: demo_env_def)

lemma best_row_loop_from_start:
  assumes wf: "\<forall>line\<in>set data. \<exists>x. float_field env line 2 = Inr x"
    and some: "\<exists>line\<in>set data. float_lt (score_of env line) PosInf"
  shows "\<exists>k<length data.
     best_row_loop env data PosInf None = Inr (score_of env (data ! k), Some (data ! k ! 0)) \<and>
     float_lt (score_of env (data ! k)) PosInf \<and>
     (\<forall>j<length data. \<not> float_lt (score_of env (data ! j)) (score_of env (data ! k))) \<and>
     (\<forall>j<k. score_of env (data ! j) \<noteq> score_of env (data ! k))"
proof -
  from best_row_loop_spec[OF wf, of PosInf None] obtain rs rf where
    r: "best_row_loop env data PosInf None = Inr (rs, rf)" and
    d: "(rs = PosInf \<and> rf = None \<and> (\<forall>line\<in>set data. \<not> float_lt (score_of env line) PosInf)) \<or>
        (\<exists>k<length data. rs = score_of env (data ! k) \<and> rf = Some (data ! k ! 0) \<and>
           float_lt rs PosInf \<and>
           (\<forall>j<length data. \<not> float_lt (score_of env (data ! j)) rs) \<and>
           (\<forall>j<k. score_of env (data ! j) \<noteq> rs))" by blast
  from d some obtain k where k: "k < length data" "rs = score_of env (data ! k)"
    "rf = Some (data ! k ! 0)" "float_lt rs PosInf"
    "\<forall>j<length data. \<not> float_lt (score_of env (data ! j)) rs"
    "\<forall>j<k. score_of env (data ! j) \<noteq> rs" by blast
  show ?thesis
    using k r by (intro exI[of _ k]) simp
qed

lemma float_lt_total_below_inf:
  assumes "float_lt a PosInf" and "float_lt b PosInf" and "\<not> float_lt a b" and "\<not> float_lt b a"
  shows "a = b"
  using assms by (cases a; cases b) auto

lemma first_minimum_unique:
  assumes k: "k < length data" "float_lt (score_of env (data ! k)) PosInf"
      "\<forall>j<length data. \<not> float_lt (score_of env (data ! j)) (score_of env (data ! k))"
      "\<forall>j<k. score_of env (data ! j) \<noteq> score_of env (data ! k)"
    and k': "k' < length data" "float_lt (score_of env (data ! k')) PosInf"
      "\<forall>j<length data. \<not> float_lt (score_of env (data ! j)) (score_of env (data ! k'))"
      "\<forall>j<k'. score_of env (data ! j) \<noteq> score_of env (data ! k')"
  shows "k = k'"
proof -
  have eq: "score_of env (data ! k) = score_of env (data ! k')"
    using float_lt_total_below_inf[OF k(2) k'(2)] k(1,3) k'(1,3) by blast
  show ?thesis
  proof (rule ccontr)
    assume "k \<noteq> k'"
    then consider "k < k'" | "k' < k" by linarith
    then show False using eq k(4) k'(4) by cases auto
  qed
qed

text \<open>
  Claim C4, as amended. When the candidate table of a formula is readable, every data row
  has a score that converts, and some row has a score below \<open>+\<infinity>\<close>, then
  \<^verbatim>\<open>get_best_cif\<close> opens the candidate file named by one row \<open>k\<close> of the table such that
  the score of row \<open>k\<close> is below \<open>+\<infinity>\<close> (so it is a number), no row has a score below
  that of row \<open>k\<close> and no earlier row has the same score: the lowest score wins, and among
  equal lowest scores the first row wins. These three conditions determine \<open>k\<close>.
\<close>

theorem get_best_cif_first_minimum:
  assumes table: "read_text fs (path_join3 challenge_path formula ''results.csv'') = Inr table_text"
    and parsed: "csv_reader env table_text = header_row # data"
    and wf: "\<forall>line\<in>set data. \<exists>x. float_field env line 2 = Inr x"
    and some: "\<exists>line\<in>set data. float_lt (score_of env line) PosInf"
  shows "\<exists>k<length data.
     float_lt (score_of env (data ! k)) PosInf \<and>
     (\<forall>j<length data. \<not> float_lt (score_of env (data ! j)) (score_of env (data ! k))) \<and>
     (\<forall>j<k. score_of env (data ! j) \<noteq> score_of env (data ! k)) \<and>
     get_best_cif env fs challenge_path formula =
       read_text fs (path_join3 challenge_path formula (data ! k ! 0))"
proof -
  from best_row_loop_from_start[OF wf some] obtain k where
    k: "k < length data"
      "best_row_loop env data PosInf None = Inr (score_of env (data ! k), Some (data ! k ! 0))"
      "float_lt (score_of env (data ! k)) PosInf"
      "\<forall>j<length data. \<not> float_lt (score_of env (data ! j)) (score_of env (data ! k))"
      "\<forall>j<k. score_of env (data ! j) \<noteq> score_of env (data ! k)" by blast
  have "get_best_cif env fs challenge_path formula =
       read_text fs (path_join3 challenge_path formula (data ! k ! 0))"
    by (simp add: get_best_cif_def table parsed k(2))
  with k show ?thesis by blast
qed

lemma demo_NaCl_table:
  "read_text demo_fs (path_join3 ''run'' ''NaCl'' ''results.csv'') =
     Inr (demo_table [''cif,iteration,score'', ''c1.cif,2,5.0'', ''c2.cif,1,3.0'', ''c3.cif,3,3.0''])"
  by (simp add: read_text_def demo_fs_def path_join3_def path_join_def)

lemma demo_NaCl_rows:
  "csv_reader demo_env
     (demo_table [''cif,iteration,score'', ''c1.cif,2,5.0'', ''c2.cif,1,3.0'', ''c3.cif,3,3.0'']) =
   [''cif'', ''iteration'', ''score''] # demo_NaCl_data"
  by (simp add: demo_env_sel demo_csv_reader_def demo_lines_def demo_table_def demo_NaCl_data_def)

lemma demo_NaCl_scores:
  "float_field demo_env [''c1.cif'', ''2'', ''5.0''] 2 = Inr (Fin 5)"
  "float_field demo_env [''c2.cif'', ''1'', ''3.0''] 2 = Inr (Fin 3)"
  "float_field demo_env [''c3.cif'', ''3'', ''3.0''] 2 = Inr (Fin 3)"
  by (simp_all add: float_field_def field_def demo_env_sel demo_float_of_str_def)

lemma demo_NaCl_best: "get_best_cif demo_env demo_fs ''run'' ''NaCl'' = Inr ''data_two''"
  by (simp add: get_best_cif_def demo_NaCl_table demo_NaCl_rows demo_NaCl_data_def
      demo_NaCl_scores field_def)
     (simp add: read_text_def demo_fs_def path_join3_def path_join_def)

theorem get_best_cif_first_minimum_witness:
  "get_best_cif demo_env demo_fs ''run'' ''NaCl'' = Inr ''data_two'' \<and>
   (\<exists>k<length demo_NaCl_data.
      float_lt (score_of demo_env (demo_NaCl_data ! k)) PosInf \<and>
      (\<forall>j<length demo_NaCl_data.
         \<not> float_lt (score_of demo_env (demo_NaCl_data ! j))
                      (score_of demo_env (demo_NaCl_data ! k))) \<and>
      (\<forall>j<k. score_of demo_env (demo_NaCl_data ! j) \<noteq> score_of demo_env (demo_NaCl_data ! k)) \<and>
      get_best_cif demo_env demo_fs ''run'' ''NaCl'' =
        read_text demo_fs (path_join3 ''run'' ''NaCl'' (demo_NaCl_data ! k ! 0)))"
proof (rule conjI)
  show "get_best_cif demo_env demo_fs ''run'' ''NaCl'' = Inr ''data_two''"
    by (rule demo_NaCl_best)
next
  have wf: "\<forall>line\<in>set demo_NaCl_data. \<exists>x. float_field demo_env line 2 = Inr x"
    by (simp add: demo_NaCl_data_def demo_NaCl_scores)
  have some: "\<exists>line\<in>set demo_NaCl_data. float_lt (score_of demo_env line) PosInf"
    by (simp add: demo_NaCl_data_def score_of_def demo_NaCl_scores)
  show "\<exists>k<length demo_NaCl_data.
      float_lt (score_of demo_env (demo_NaCl_data ! k)) PosInf \<and>
      (\<forall>j<length demo_NaCl_data.
         \<not> float_lt (score_of demo_env (demo_NaCl_data ! j))
                      (score_of demo_env (demo_NaCl_data ! k))) \<and>
      (\<forall>j<k. score_of demo_env (demo_NaCl_data ! j) \<noteq> score_of demo_env (demo_NaCl_data ! k)) \<and>
      get_best_cif demo_env demo_fs ''run'' ''NaCl'' =
        read_text demo_fs (path_join3 ''run'' ''NaCl'' (demo_NaCl_data ! k ! 0))"
    by (rule get_best_cif_first_minimum[OF demo_NaCl_table demo_NaCl_rows wf some])
qed

text \<open>
  Claim C4 as stated fails: the candidate table of \<^verbatim>\<open>KCl\<close> has one data row, its score
  is \<^verbatim>\<open>inf\<close> and its candidate file exists, yet no row is selected and
  \<^verbatim>\<open>get_best_cif\<close> raises \<^verbatim>\<open>TypeError\<close>.
\<close>

theorem get_best_cif_single_inf_row_counterexample:
  "csv_reader demo_env (demo_table [''cif,iteration,score'', ''k1.cif,1,inf'']) =
     [[''cif'', ''iteration'', ''score''], [''k1.cif'', ''1'', ''inf'']] \<and>
   read_text demo_fs (path_join3 ''run'' ''KCl'' ''results.csv'') =
     Inr (demo_table [''cif,iteration,score'', ''k1.cif,1,inf'']) \<and>
   float_field demo_env [''k1.cif'', ''1'', ''inf''] 2 = Inr PosInf \<and>
   read_text demo_fs (path_join3 ''run'' ''KCl'' ''k1.cif'') = Inr ''data_k1'' \<and>
   get_best_cif demo_env demo_fs ''run'' ''KCl'' = Inl TypeError"
  by (simp add: get_best_cif_def read_text_def demo_fs_def path_join3_def path_join_def
      demo_env_sel demo_csv_reader_def demo_lines_def demo_table_def float_field_def field_def
      demo_float_of_str_def)

section \<open>Summary rows, first-attempt validity and the match evaluator\<close>

lemma best_cif_if_valid_not_positive:
  "\<not> float_gt rate (Fin 0) \<Longrightarrow> best_cif_if_valid env fs cp formula rate = Inr None"
  by (simp add: best_cif_if_valid_def)

lemma summary_loop_no_candidate:
  assumes "summary_loop env fs cp data results = Inr results'"
    and "\<forall>f r. results f = Some r \<longrightarrow> \<not> float_gt (validity_rate r) (Fin 0) \<longrightarrow> best_cif r = None"
  shows "\<forall>f r. results' f = Some r \<longrightarrow> \<not> float_gt (validity_rate r) (Fin 0) \<longrightarrow> best_cif r = None"
  using assms
proof (induction data arbitrary: results)
  case Nil
  then show ?case by simp
next
  case (Cons line rest)
  from Cons.prems(1) obtain formula rate mean mn best where
    row: "field line 0 = Inr formula" "float_field env line 1 = Inr rate"
      "float_field env line 2 = Inr mean" "float_field env line 3 = Inr mn"
      "best_cif_if_valid env fs cp formula rate = Inr best"
    and tl_run: "summary_loop env fs cp rest
        (results(formula \<mapsto> \<lparr>validity_rate = rate, mean_E = mean, min_E = mn, best_cif = best\<rparr>)) =
        Inr results'"
    by (auto split: sum.splits)
  have "\<not> float_gt rate (Fin 0) \<longrightarrow> best = None"
    using row(5) by (auto simp: best_cif_if_valid_def split: if_splits)
  then have "\<forall>f r. (results(formula \<mapsto>
        \<lparr>validity_rate = rate, mean_E = mean, min_E = mn, best_cif = best\<rparr>)) f = Some r \<longrightarrow>
      \<not> float_gt (validity_rate r) (Fin 0) \<longrightarrow> best_cif r = None"
    using Cons.prems(2) by auto
  from Cons.IH[OF tl_run this] show ?case .
qed

lemma read_results_csv_no_candidate:
  assumes "read_results_csv env fs cp = Inr results" and "results f = Some r"
    and "\<not> float_gt (validity_rate r) (Fin 0)"
  shows "best_cif r = None"
proof -
  from assms(1) obtain rows_read where
    "summary_loop env fs cp rows_read Map.empty = Inr results"
    by (auto simp: read_results_csv_def split: sum.splits list.splits)
  from summary_loop_no_candidate[OF this] assms(2,3) show ?thesis by simp
qed

text \<open>
  Claim C1. Whenever \<^verbatim>\<open>read_props\<close> returns a validity rate that is not positive (in
  particular the rate 0, which is also what it returns for a formula without a summary
  row), the returned best candidate is \<^verbatim>\<open>None\<close>, and \<^verbatim>\<open>matches_true\<close> on it returns
  \<^verbatim>\<open>False\<close> without a single call to the structure parser or the matcher. The second
  conjunct is the absent formula: it gets the rate 0.
\<close>

theorem zero_validity_no_candidate_no_match:
  "(read_props env fs run_root formula = Inr (rate, mn, mean, best) \<and> \<not> float_gt rate (Fin 0) \<longrightarrow>
      best = None \<and> matches_true env true_cif best = (Inr False, [])) \<and>
   (read_results_csv env fs run_root = Inr results \<and> results formula = None \<longrightarrow>
      (\<exists>mn mean best. read_props env fs run_root formula = Inr (Fin 0, mn, mean, best)))"
proof (intro conjI impI)
  assume a: "read_props env fs run_root formula = Inr (rate, mn, mean, best) \<and> \<not> float_gt rate (Fin 0)"
  then obtain results where res: "read_results_csv env fs run_root = Inr results"
    by (auto simp: read_props_def split: sum.splits)
  have "best = None"
  proof (cases "results formula")
    case None
    then show ?thesis using a res by (simp add: read_props_def)
  next
    case (Some r)
    then have "rate = validity_rate r" "best = best_cif r"
      using a res by (simp_all add: read_props_def)
    then show ?thesis using read_results_csv_no_candidate[OF res Some] a by simp
  qed
  then show "best = None" "matches_true env true_cif best = (Inr False, [])"
    by (simp_all add: matches_true_def)
next
  assume "read_results_csv env fs run_root = Inr results \<and> results formula = None"
  then show "\<exists>mn mean best. read_props env fs run_root formula = Inr (Fin 0, mn, mean, best)"
    by (simp add: read_props_def)
qed

lemma demo_run_summary:
  "read_text demo_fs (path_join ''run'' ''results.csv'') =
     Inr (demo_table [''formula,validity_rate,mean_E,min_E'', ''NaCl,0.5,3.0,3.0'',
                      ''MgO,0.0,nan,nan''])"
  by (simp add: read_text_def demo_fs_def path_join_def)

lemma demo_run_summary_rows:
  "csv_reader demo_env
     (demo_table [''formula,validity_rate,mean_E,min_E'', ''NaCl,0.5,3.0,3.0'',
                  ''MgO,0.0,nan,nan'']) =
   [[''formula'', ''validity_rate'', ''mean_E'', ''min_E''],
    [''NaCl'', ''0.5'', ''3.0'', ''3.0''], [''MgO'', ''0.0'', ''nan'', ''nan'']]"
  by (simp add: demo_env_sel demo_csv_reader_def demo_lines_def demo_table_def)

lemma demo_run_results:
  "read_results_csv demo_env demo_fs ''run'' =
     Inr [''NaCl'' \<mapsto> \<lparr>validity_rate = Fin (1 / 2), mean_E = Fin 3, min_E = Fin 3,
                        best_cif = Some ''data_two''\<rparr>,
          ''MgO'' \<mapsto> \<lparr>validity_rate = Fin 0, mean_E = NaN, min_E = NaN, best_cif = None\<rparr>]"
  by (simp add: read_results_csv_def demo_run_summary demo_run_summary_rows field_def
      float_field_def best_cif_if_valid_def float_gt_def demo_NaCl_best demo_env_sel(3)
      demo_float_of_str_def)

lemma demo_read_props_MgO:
  "read_props demo_env demo_fs ''run'' ''MgO'' = Inr (Fin 0, NaN, NaN, None)"
  by (simp add: read_props_def demo_run_results)

lemma demo_read_props_Li2O:
  "read_props demo_env demo_fs ''run'' ''Li2O'' = Inr (Fin 0, NaN, NaN, None)"
  by (simp add: read_props_def demo_run_results)

theorem zero_validity_no_candidate_no_match_witness:
  "read_props demo_env demo_fs ''run'' ''MgO'' = Inr (Fin 0, NaN, NaN, None) \<and>
   \<not> float_gt (Fin 0) (Fin 0) \<and>
   matches_true demo_env ''data_MgO'' None = (Inr False, []) \<and>
   (\<exists>mn mean best. read_props demo_env demo_fs ''run'' ''Li2O'' = Inr (Fin 0, mn, mean, best))"
proof -
  have ng: "\<not> float_gt (Fin 0) (Fin 0)" by (simp add: float_gt_def)
  have absent:
    "[''NaCl'' \<mapsto> \<lparr>validity_rate = Fin (1 / 2), mean_E = Fin 3, min_E = Fin 3,
                     best_cif = Some ''data_two''\<rparr>,
      ''MgO'' \<mapsto> \<lparr>validity_rate = Fin 0, mean_E = NaN, min_E = NaN, best_cif = None\<rparr>]
       ''Li2O'' = None" by simp
  have m: "matches_true demo_env ''data_MgO'' None = (Inr False, [])"
    using zero_validity_no_candidate_no_match[where env = demo_env and fs = demo_fs
        and run_root = "''run''" and formula = "''MgO''" and rate = "Fin 0" and mn = NaN
        and mean = NaN and best = None and true_cif = "''data_MgO''"]
      demo_read_props_MgO ng by blast
  have e: "\<exists>mn mean best. read_props demo_env demo_fs ''run'' ''Li2O'' = Inr (Fin 0, mn, mean, best)"
    using zero_validity_no_candidate_no_match[where env = demo_env and fs = demo_fs
        and run_root = "''run''" and formula = "''Li2O''",
        THEN conjunct2, rule_format, OF conjI, OF demo_run_results absent] .
  show ?thesis using demo_read_props_MgO ng m e by blast
qed

section \<open>Failure containment\<close>

text \<open>
  Claim C2, as amended. \<^verbatim>\<open>matches_true\<close> contains only a failure of the matcher's
  \<^verbatim>\<open>fit\<close>: that one becomes \<^verbatim>\<open>False\<close>. A failure to parse the ground truth, or to
  parse the candidate after the ground truth parsed, is raised to the caller.
\<close>

theorem matches_true_contains_only_fit_failures:
  "(structure_from_str env true_cif = Inl e \<longrightarrow>
      fst (matches_true env true_cif (Some gen_cif)) = Inl e) \<and>
   (structure_from_str env true_cif = Inr ts \<and> structure_from_str env gen_cif = Inl e \<longrightarrow>
      fst (matches_true env true_cif (Some gen_cif)) = Inl e) \<and>
   (structure_from_str env true_cif = Inr ts \<and> structure_from_str env gen_cif = Inr gs \<and>
    matcher_fit env ts gs = Inl e \<longrightarrow>
      fst (matches_true env true_cif (Some gen_cif)) = Inr False)"
  by (simp add: matches_true_def)

theorem matches_true_contains_only_fit_failures_witness:
  "fst (matches_true demo_env ''junk'' (Some ''data_two'')) = Inl LibraryError \<and>
   fst (matches_true demo_env ''data_one'' (Some ''junk'')) = Inl LibraryError \<and>
   fst (matches_true (demo_env\<lparr>matcher_fit := \<lambda>a b. Inl LibraryError\<rparr>)
          ''data_one'' (Some ''data_two'')) = Inr False"
proof -
  have p1: "structure_from_str demo_env ''junk'' = Inl LibraryError"
    by (simp add: demo_env_sel)
  have p2: "structure_from_str demo_env ''data_one'' = Inr ''data_one''"
    by (simp add: demo_env_sel)
  have p3: "structure_from_str (demo_env\<lparr>matcher_fit := \<lambda>a b. Inl LibraryError\<rparr>) ''data_one'' =
      Inr ''data_one'' \<and>
    structure_from_str (demo_env\<lparr>matcher_fit := \<lambda>a b. Inl LibraryError\<rparr>) ''data_two'' =
      Inr ''data_two'' \<and>
    matcher_fit (demo_env\<lparr>matcher_fit := \<lambda>a b. Inl LibraryError\<rparr>) ''data_one'' ''data_two'' =
      Inl LibraryError"
    by (simp add: demo_env_sel)
  have a: "fst (matches_true demo_env ''junk'' (Some ''data_two'')) = Inl LibraryError"
    using matches_true_contains_only_fit_failures[where env = demo_env and true_cif = "''junk''"
        and gen_cif = "''data_two''" and e = LibraryError] p1 by blast
  have b: "fst (matches_true demo_env ''data_one'' (Some ''junk'')) = Inl LibraryError"
    using matches_true_contains_only_fit_failures[where env = demo_env
        and true_cif = "''data_one''" and gen_cif = "''junk''" and e = LibraryError
        and ts = "''data_one''"] p1 p2 by blast
  have c: "fst (matches_true (demo_env\<lparr>matcher_fit := \<lambda>a b. Inl LibraryError\<rparr>)
          ''data_one'' (Some ''data_two'')) = Inr False"
    using matches_true_contains_only_fit_failures[
        where env = "demo_env\<lparr>matcher_fit := \<lambda>a b. Inl LibraryError\<rparr>"
        and true_cif = "''data_one''" and gen_cif = "''data_two''" and e = LibraryError
        and ts = "''data_one''" and gs = "''data_two''"] p3 by blast
  show ?thesis using a b c by blast
qed

text \<open>
  Claim C2 as stated fails: the candidate text \<^verbatim>\<open>junk\<close> does not parse, and
  \<^verbatim>\<open>matches_true\<close> raises the parser's error instead of returning \<^verbatim>\<open>False\<close>; the
  matcher is never reached.
\<close>

theorem matches_true_parse_failure_counterexample:
  "structure_from_str demo_env ''data_one'' = Inr ''data_one'' \<and>
   structure_from_str demo_env ''junk'' = Inl LibraryError \<and>
   matches_true demo_env ''data_one'' (Some ''junk'') =
     (Inl LibraryError, [ParseStructure ''data_one'', ParseStructure ''junk'']) \<and>
   fst (matches_true demo_env ''data_one'' (Some ''junk'')) \<noteq> Inr False"
  by (simp add: matches_true_def demo_env_sel)

section \<open>Missing run data\<close>

text \<open>
  Claim C6. When the candidate table of a formula does not exist, \<^verbatim>\<open>is_valid_on_first\<close>
  returns \<^verbatim>\<open>False\<close>. When it exists and has a header and at least one data row, then
  for an iteration index \<open>i\<close> (the second field of the first data row, converted to an
  integer) the function returns the truth value of \<open>i = 1\<close>: \<^verbatim>\<open>True\<close> for the index 1,
  \<^verbatim>\<open>False\<close> for every other index; and it returns \<^verbatim>\<open>True\<close> in no other case, that is,
  exactly when that field exists and converts to the integer 1.
\<close>

theorem is_valid_on_first_iff_first_iteration_is_1:
  "(\<not> path_exists fs (path_join formula_dir ''results.csv'') \<longrightarrow>
      is_valid_on_first env fs formula_dir = Inr False) \<and>
   (files fs (path_join formula_dir ''results.csv'') = Some table_text \<and>
    csv_reader env table_text = header_row # first_line # rest \<longrightarrow>
      (field first_line 1 = Inr s \<and> int_of_str env s = Some iteration \<longrightarrow>
         is_valid_on_first env fs formula_dir = Inr (iteration = 1)) \<and>
      (is_valid_on_first env fs formula_dir = Inr True \<longleftrightarrow>
         (\<exists>s. field first_line 1 = Inr s \<and> int_of_str env s = Some 1)))"
  by (auto simp: is_valid_on_first_def path_exists_def read_text_def
      split: sum.splits option.splits)

lemma demo_NaCl_table_file:
  "files demo_fs (path_join ''run/NaCl'' ''results.csv'') =
     Some (demo_table [''cif,iteration,score'', ''c1.cif,2,5.0'', ''c2.cif,1,3.0'', ''c3.cif,3,3.0''])"
  by (simp add: demo_fs_def path_join_def)

lemma demo_gap_NaCl_table_file:
  "files demo_fs (path_join ''gap/NaCl'' ''results.csv'') =
     Some (demo_table [''cif,iteration,score'', ''c1.cif,1,5.0''])"
  by (simp add: demo_fs_def path_join_def)

lemma demo_gap_NaCl_rows:
  "csv_reader demo_env (demo_table [''cif,iteration,score'', ''c1.cif,1,5.0'']) =
     [''cif'', ''iteration'', ''score''] # [''c1.cif'', ''1'', ''5.0''] # []"
  by (simp add: demo_env_sel demo_csv_reader_def demo_lines_def demo_table_def)

lemma demo_Li2O_no_table: "\<not> path_exists demo_fs (path_join ''run/Li2O'' ''results.csv'')"
  by (simp add: path_exists_def demo_fs_def path_join_def)

theorem is_valid_on_first_iff_first_iteration_is_1_witness:
  "is_valid_on_first demo_env demo_fs ''run/Li2O'' = Inr False \<and>
   is_valid_on_first demo_env demo_fs ''gap/NaCl'' = Inr True \<and>
   is_valid_on_first demo_env demo_fs ''run/NaCl'' = Inr False"
proof -
  have a: "is_valid_on_first demo_env demo_fs ''run/Li2O'' = Inr False"
    using is_valid_on_first_iff_first_iteration_is_1[where fs = demo_fs
        and formula_dir = "''run/Li2O''" and env = demo_env] demo_Li2O_no_table by blast
  have one: "field [''c1.cif'', ''1'', ''5.0''] 1 = Inr ''1'' \<and> int_of_str demo_env ''1'' = Some 1"
    by (simp add: field_def demo_env_sel demo_int_of_str_def)
  have b: "is_valid_on_first demo_env demo_fs ''gap/NaCl'' = Inr ((1::int) = 1)"
    using is_valid_on_first_iff_first_iteration_is_1[where fs = demo_fs
        and formula_dir = "''gap/NaCl''" and env = demo_env
        and table_text = "demo_table [''cif,iteration,score'', ''c1.cif,1,5.0'']"
        and header_row = "[''cif'', ''iteration'', ''score'']"
        and first_line = "[''c1.cif'', ''1'', ''5.0'']"
        and rest = "[]" and s = "''1''" and iteration = 1]
      demo_gap_NaCl_table_file demo_gap_NaCl_rows one by blast
  have two: "field [''c1.cif'', ''2'', ''5.0''] 1 = Inr ''2'' \<and> int_of_str demo_env ''2'' = Some 2"
    by (simp add: field_def demo_env_sel demo_int_of_str_def)
  have c: "is_valid_on_first demo_env demo_fs ''run/NaCl'' = Inr ((2::int) = 1)"
    using is_valid_on_first_iff_first_iteration_is_1[where fs = demo_fs
        and formula_dir = "''run/NaCl''" and env = demo_env
        and table_text = "demo_table [''cif,iteration,score'', ''c1.cif,2,5.0'', ''c2.cif,1,3.0'',
                               ''c3.cif,3,3.0'']"
        and header_row = "[''cif'', ''iteration'', ''score'']"
        and first_line = "[''c1.cif'', ''2'', ''5.0'']"
        and rest = "[[''c2.cif'', ''1'', ''3.0''], [''c3.cif'', ''3'', ''3.0'']]"
        and s = "''2''" and iteration = 2]
      demo_NaCl_table_file demo_NaCl_rows[unfolded demo_NaCl_data_def] two by blast
  show ?thesis using a b c by simp
qed

text \<open>
  Claim C3, as amended. The two absences the code guards degrade gracefully: when the
  summary table was read and has no row for the formula, \<^verbatim>\<open>read_props\<close> returns the
  rate 0, NaN for both energies and no candidate; when the candidate table does not exist,
  \<^verbatim>\<open>is_valid_on_first\<close> returns \<^verbatim>\<open>False\<close>.
\<close>

theorem missing_row_and_missing_table_degrade:
  "(read_results_csv env fs run_root = Inr results \<and> results formula = None \<longrightarrow>
      read_props env fs run_root formula = Inr (Fin 0, NaN, NaN, None)) \<and>
   (\<not> path_exists fs (path_join formula_dir ''results.csv'') \<longrightarrow>
      is_valid_on_first env fs formula_dir = Inr False)"
  by (simp add: read_props_def is_valid_on_first_def)

theorem missing_row_and_missing_table_degrade_witness:
  "read_props demo_env demo_fs ''run'' ''Li2O'' = Inr (Fin 0, NaN, NaN, None) \<and>
   is_valid_on_first demo_env demo_fs (path_join ''run'' ''Li2O'') = Inr False"
proof -
  have absent:
    "[''NaCl'' \<mapsto> \<lparr>validity_rate = Fin (1 / 2), mean_E = Fin 3, min_E = Fin 3,
                     best_cif = Some ''data_two''\<rparr>,
      ''MgO'' \<mapsto> \<lparr>validity_rate = Fin 0, mean_E = NaN, min_E = NaN, best_cif = None\<rparr>]
       ''Li2O'' = None" by simp
  have dir: "path_join ''run'' ''Li2O'' = ''run/Li2O''" by (simp add: path_join_def)
  have a: "read_props demo_env demo_fs ''run'' ''Li2O'' = Inr (Fin 0, NaN, NaN, None)"
    using missing_row_and_missing_table_degrade[where env = demo_env and fs = demo_fs
        and run_root = "''run''" and formula = "''Li2O''",
        THEN conjunct1, rule_format, OF conjI, OF demo_run_results absent] .
  have b: "is_valid_on_first demo_env demo_fs (path_join ''run'' ''Li2O'') = Inr False"
    using missing_row_and_missing_table_degrade[where env = demo_env and fs = demo_fs
        and formula_dir = "path_join ''run'' ''Li2O''", THEN conjunct2]
      demo_Li2O_no_table dir by simp
  show ?thesis using a b by blast
qed

text \<open>
  Claim C3 as stated fails. The candidate table of \<^verbatim>\<open>MgO\<close> exists and is empty (a header,
  no data row): \<^verbatim>\<open>is_valid_on_first\<close> raises \<^verbatim>\<open>StopIteration\<close>. The run \<^verbatim>\<open>gap\<close> lists
  \<^verbatim>\<open>CaO\<close> with a positive rate and has no directory for it: \<^verbatim>\<open>read_props\<close> raises
  \<^verbatim>\<open>FileNotFoundError\<close>.
\<close>

theorem missing_data_raises_counterexample:
  "csv_reader demo_env (demo_table [''cif,iteration,score'']) = [[''cif'', ''iteration'', ''score'']] \<and>
   files demo_fs (path_join ''run/MgO'' ''results.csv'') = Some (demo_table [''cif,iteration,score'']) \<and>
   is_valid_on_first demo_env demo_fs ''run/MgO'' = Inl StopIteration \<and>
   \<not> path_exists demo_fs (path_join3 ''gap'' ''CaO'' ''results.csv'') \<and>
   read_props demo_env demo_fs ''gap'' ''CaO'' = Inl FileNotFoundError"
  by (simp add: is_valid_on_first_def path_exists_def read_text_def demo_fs_def path_join_def
      path_join3_def demo_env_sel demo_csv_reader_def demo_lines_def demo_table_def
      read_props_def read_results_csv_def field_def float_field_def demo_float_of_str_def
      best_cif_if_valid_def float_gt_def get_best_cif_def)

section \<open>One lookup reads every formula of the run\<close>

lemma summary_loop_raises_at_row:
  assumes "line \<in> set data"
    and "field line 0 = Inr g"
    and "float_field env line 1 = Inr rate"
    and "float_gt rate (Fin 0)"
    and "get_best_cif env fs cp g = Inl e"
  shows "\<exists>e'. summary_loop env fs cp data results = Inl e'"
  using assms(1)
proof (induction data arbitrary: results)
  case Nil
  then show ?case by simp
next
  case (Cons first rest)
  show ?case
  proof (cases "first = line")
    case True
    have "best_cif_if_valid env fs cp g rate = Inl e"
      using assms(4,5) by (simp add: best_cif_if_valid_def)
    then show ?thesis
      using True assms(2,3) by (simp split: sum.splits)
  next
    case False
    then have "line \<in> set rest" using Cons.prems by simp
    from Cons.IH[OF this] show ?thesis
      by (auto split: sum.splits)
  qed
qed

lemma get_best_cif_missing_table:
  assumes "files fs (path_join3 cp g ''results.csv'') = None"
  shows "\<exists>e. get_best_cif env fs cp g = Inl e"
  using assms by (simp add: get_best_cif_def read_text_def)

lemma get_best_cif_missing_candidate:
  assumes "files fs (path_join3 cp g ''results.csv'') = Some table_text"
    and "csv_reader env table_text = header_row # data"
    and "best_row_loop env data PosInf None = Inr (s, Some fname)"
    and "files fs (path_join3 cp g fname) = None"
  shows "\<exists>e. get_best_cif env fs cp g = Inl e"
  using assms by (simp add: get_best_cif_def read_text_def)

text \<open>
  Claim C10. \<^verbatim>\<open>read_props\<close> for a formula \<open>f\<close> reads the whole summary table and runs the
  best-candidate selection for every row with a positive rate. So when the table has a row
  for a formula \<open>g\<close> with a positive rate, and the candidate table of \<open>g\<close> is missing or the
  candidate file it selects is missing, the lookup for \<open>f\<close> raises, whatever the data of
  \<open>f\<close> is.
\<close>

theorem read_props_raises_for_other_formula:
  assumes summary: "read_text fs (path_join run_root ''results.csv'') = Inr table_text"
    and parsed: "csv_reader env table_text = header_row # data"
    and row: "line \<in> set data" "field line 0 = Inr g" "float_field env line 1 = Inr rate"
      "float_gt rate (Fin 0)"
    and missing: "files fs (path_join3 run_root g ''results.csv'') = None \<or>
      (\<exists>candidates header_row' data' s fname.
         files fs (path_join3 run_root g ''results.csv'') = Some candidates \<and>
         csv_reader env candidates = header_row' # data' \<and>
         best_row_loop env data' PosInf None = Inr (s, Some fname) \<and>
         files fs (path_join3 run_root g fname) = None)"
  shows "\<exists>e. read_props env fs run_root f = Inl e"
proof -
  from missing obtain e where "get_best_cif env fs run_root g = Inl e"
    using get_best_cif_missing_table get_best_cif_missing_candidate by blast
  from summary_loop_raises_at_row[OF row this] obtain e' where
    "summary_loop env fs run_root data Map.empty = Inl e'" by blast
  then show ?thesis
    by (simp add: read_props_def read_results_csv_def summary parsed)
qed

lemma demo_gap_summary:
  "read_text demo_fs (path_join ''gap'' ''results.csv'') =
     Inr (demo_table [''formula,validity_rate,mean_E,min_E'', ''NaCl,0.5,3.0,3.0'',
                      ''CaO,0.5,1.0,1.0''])"
  by (simp add: read_text_def demo_fs_def path_join_def)

lemma demo_gap_summary_rows:
  "csv_reader demo_env
     (demo_table [''formula,validity_rate,mean_E,min_E'', ''NaCl,0.5,3.0,3.0'',
                  ''CaO,0.5,1.0,1.0'']) =
   [''formula'', ''validity_rate'', ''mean_E'', ''min_E''] #
   [[''NaCl'', ''0.5'', ''3.0'', ''3.0''], [''CaO'', ''0.5'', ''1.0'', ''1.0'']]"
  by (simp add: demo_env_sel demo_csv_reader_def demo_lines_def demo_table_def)

theorem read_props_raises_for_other_formula_witness:
  "get_best_cif demo_env demo_fs ''gap'' ''NaCl'' = Inr ''data_one'' \<and>
   is_valid_on_first demo_env demo_fs ''gap/NaCl'' = Inr True \<and>
   files demo_fs (path_join3 ''gap'' ''CaO'' ''results.csv'') = None \<and>
   (\<exists>e. read_props demo_env demo_fs ''gap'' ''NaCl'' = Inl e)"
proof -
  have own: "get_best_cif demo_env demo_fs ''gap'' ''NaCl'' = Inr ''data_one''"
    by (simp add: get_best_cif_def read_text_def demo_fs_def path_join3_def path_join_def
        demo_env_sel demo_csv_reader_def demo_lines_def demo_table_def float_field_def field_def
        demo_float_of_str_def)
  have first_ok: "is_valid_on_first demo_env demo_fs ''gap/NaCl'' = Inr True"
    by (simp add: is_valid_on_first_def path_exists_def read_text_def demo_gap_NaCl_table_file
        demo_gap_NaCl_rows field_def demo_env_sel(4) demo_int_of_str_def)
  have gone: "files demo_fs (path_join3 ''gap'' ''CaO'' ''results.csv'') = None"
    by (simp add: demo_fs_def path_join3_def path_join_def)
  have row: "[''CaO'', ''0.5'', ''1.0'', ''1.0''] \<in>
        set [[''NaCl'', ''0.5'', ''3.0'', ''3.0''], [''CaO'', ''0.5'', ''1.0'', ''1.0'']]"
      "field [''CaO'', ''0.5'', ''1.0'', ''1.0''] 0 = Inr ''CaO''"
      "float_field demo_env [''CaO'', ''0.5'', ''1.0'', ''1.0''] 1 = Inr (Fin (1 / 2))"
      "float_gt (Fin (1 / 2)) (Fin 0)"
    by (simp_all add: field_def float_field_def demo_env_sel demo_float_of_str_def float_gt_def)
  have "\<exists>e. read_props demo_env demo_fs ''gap'' ''NaCl'' = Inl e"
    by (rule read_props_raises_for_other_formula[OF demo_gap_summary demo_gap_summary_rows row
          disjI1[OF gone]])
  with own first_ok gone show ?thesis by blast
qed

section \<open>The aggregate counters\<close>

lemma length_bump: "length (bump xs i) = length xs"
  by (simp add: bump_def)

lemma nth_bump:
  "j < length xs \<Longrightarrow> bump xs i ! j = (if i = j then xs ! j + 1 else xs ! j)"
  by (simp add: bump_def nth_list_update)

lemma slot_less_2: "slot v < 2"
  by (cases v) simp_all

lemma counts_ok_count_validity: "counts_ok st \<Longrightarrow> counts_ok (count_validity v rate st)"
  by (simp add: counts_ok_def count_validity_def)

lemma counts_ok_count_valid_on_first:
  "counts_ok st \<Longrightarrow> counts_ok (count_valid_on_first v valid_on_first st)"
  by (simp add: counts_ok_def count_valid_on_first_def)

lemma counts_ok_count_match_all: "counts_ok st \<Longrightarrow> counts_ok (count_match_all v st)"
  by (cases v) (simp_all add: counts_ok_def count_match_all_def length_bump nth_bump)

lemma counts_ok_count_match_unseen_after_all:
  "counts_ok st \<Longrightarrow> counts_ok (count_match_unseen v (count_match_all v st))"
  by (cases v)
     (simp_all add: counts_ok_def count_match_all_def count_match_unseen_def length_bump nth_bump)

lemma counts_ok_count_match: "counts_ok st \<Longrightarrow> counts_ok (count_match v is_match seen st)"
  by (simp add: count_match_def Let_def counts_ok_count_match_all
      counts_ok_count_match_unseen_after_all)

lemma counts_ok_update_counts:
  "counts_ok st \<Longrightarrow> counts_ok (update_counts v rate valid_on_first is_match seen st)"
  by (simp add: update_counts_def counts_ok_count_match counts_ok_count_valid_on_first
      counts_ok_count_validity)

lemma counts_ok_disk_rows: "counts_ok (st\<lparr>disk := d, rows := r\<rparr>) = counts_ok st"
  by (simp add: counts_ok_def)

lemma counts_ok_disk: "counts_ok (st\<lparr>disk := d\<rparr>) = counts_ok st"
  by (simp add: counts_ok_def)

lemma process_variant_Inr:
  assumes "process_variant env training formula true_cif alignn_E v st = Inr st'"
  shows "\<exists>rate mn mean best first_ok matched d.
     read_props env (disk st) (run_dir v) formula = Inr (rate, mn, mean, best) \<and>
     is_valid_on_first env (disk st) (path_join (run_dir v) formula) = Inr first_ok \<and>
     fst (matches_true env true_cif best) = Inr matched \<and>
     write_best env (disk st) formula best (best_name v) = Inr d \<and>
     st' = update_counts v rate (yes_no first_ok) (yes_no matched)
             (if formula \<in> training then ''* '' else [])
             (st\<lparr>disk := d,
                 rows := rows st @
                   [result_row env training formula alignn_E v mean mn rate
                      (yes_no first_ok) (yes_no matched)]\<rparr>)"
  using assms
  by (auto simp: process_variant_def Let_def split: sum.splits prod.splits)

lemma process_formula_Inr:
  assumes "process_formula env challenge_set training alignn_energies formula st = Inr st'"
  shows "\<exists>d1 true_cif alignn_E d2 st1.
     makedirs (disk st) (path_join out_dir formula) = Inr d1 \<and>
     map_of challenge_set formula = Some true_cif \<and>
     alignn_energies formula = Some alignn_E \<and>
     write_cif_and_envs env d1 out_dir formula true_cif ''true'' = Inr d2 \<and>
     process_variant env training formula true_cif alignn_E NoSpaceGroup (st\<lparr>disk := d2\<rparr>) =
       Inr st1 \<and>
     process_variant env training formula true_cif alignn_E WithSpaceGroup st1 = Inr st'"
  using assms
  by (auto simp: process_formula_def split: sum.splits option.splits)

lemma counts_ok_process_variant:
  assumes "process_variant env training formula true_cif alignn_E v st = Inr st'"
    and "counts_ok st"
  shows "counts_ok st'"
proof -
  from process_variant_Inr[OF assms(1)] obtain rate mn mean best first_ok matched d where
    "st' = update_counts v rate (yes_no first_ok) (yes_no matched)
             (if formula \<in> training then ''* '' else [])
             (st\<lparr>disk := d,
                 rows := rows st @
                   [result_row env training formula alignn_E v mean mn rate
                      (yes_no first_ok) (yes_no matched)]\<rparr>)" by blast
  then show ?thesis
    using assms(2) by (simp only: counts_ok_update_counts counts_ok_disk_rows)
qed

lemma counts_ok_process_formula:
  assumes "process_formula env challenge_set training alignn_energies formula st = Inr st'"
    and "counts_ok st"
  shows "counts_ok st'"
proof -
  from process_formula_Inr[OF assms(1)] obtain true_cif alignn_E d2 st1 where
    v1: "process_variant env training formula true_cif alignn_E NoSpaceGroup (st\<lparr>disk := d2\<rparr>) =
       Inr st1" and
    v2: "process_variant env training formula true_cif alignn_E WithSpaceGroup st1 = Inr st'"
    by blast
  have "counts_ok (st\<lparr>disk := d2\<rparr>)" using assms(2) by (simp add: counts_ok_disk)
  from counts_ok_process_variant[OF v2 counts_ok_process_variant[OF v1 this]]
  show ?thesis .
qed

lemma counts_ok_main_loop:
  assumes "main_loop env challenge_set training alignn_energies formulas st = Inr st'"
    and "counts_ok st"
  shows "counts_ok st'"
  using assms
proof (induction formulas arbitrary: st)
  case Nil
  then show ?case by simp
next
  case (Cons formula rest)
  from Cons.prems(1) obtain st1 where
    s1: "process_formula env challenge_set training alignn_energies formula st = Inr st1" and
    s2: "main_loop env challenge_set training alignn_energies rest st1 = Inr st'"
    by (auto split: sum.splits)
  from Cons.IH[OF s2 counts_ok_process_formula[OF s1 Cons.prems(2)]] show ?case .
qed

lemma counts_ok_initial_state: "counts_ok (initial_state fs)"
  by (simp add: counts_ok_def initial_state_def)

lemma main_Inr:
  assumes "main env input_zip fs = Inr st"
  shows "\<exists>alignn_energies challenge_set training fs1 st1 fs2.
     read_alignn_energies env fs alignn_energies_path = Inr alignn_energies \<and>
     read_challenge_set env input_zip = Inr (challenge_set, training) \<and>
     reset_out_dir fs = Inr fs1 \<and>
     main_loop env challenge_set training alignn_energies (sort (map fst challenge_set))
       (initial_state fs1) = Inr st1 \<and>
     write_text (disk st1) (path_join out_dir ''results.csv'')
       (csv_writer env (header # rows st1)) = Inr fs2 \<and>
     st = st1\<lparr>disk := fs2\<rparr>"
  using assms
  by (auto simp: main_def split: sum.splits prod.splits)

text \<open>
  Claim C5. The counters start with the unseen matches at most all matches in both slots;
  each counter update of a block keeps this, also between the increment of the all-counter
  and the increment of the unseen-counter that can only follow it; so it holds after every
  block, after every formula, after the loop, and in the final state of the script.
\<close>

theorem unseen_matches_never_exceed_all_matches:
  "counts_ok (initial_state fs) \<and>
   (counts_ok st \<longrightarrow>
      counts_ok (count_validity v rate st) \<and>
      counts_ok (count_valid_on_first v valid_on_first st) \<and>
      counts_ok (count_match_all v st) \<and>
      counts_ok (count_match_unseen v (count_match_all v st)) \<and>
      counts_ok (count_match v is_match seen st)) \<and>
   (counts_ok st \<and> process_variant env training formula true_cif alignn_E v st = Inr st' \<longrightarrow>
      counts_ok st') \<and>
   (counts_ok st \<and>
    process_formula env challenge_set training alignn_energies formula st = Inr st' \<longrightarrow>
      counts_ok st') \<and>
   (counts_ok st \<and>
    main_loop env challenge_set training alignn_energies formulas st = Inr st' \<longrightarrow>
      counts_ok st') \<and>
   (main env input_zip fs = Inr st' \<longrightarrow>
      match_true_count_unseen st' ! 0 \<le> match_true_count_all st' ! 0 \<and>
      match_true_count_unseen st' ! 1 \<le> match_true_count_all st' ! 1)"
proof (intro conjI impI)
  assume "main env input_zip fs = Inr st'"
  from main_Inr[OF this] obtain alignn_energies challenge_set training fs1 st1 fs2 where
    lp: "main_loop env challenge_set training alignn_energies (sort (map fst challenge_set))
       (initial_state fs1) = Inr st1" and st': "st' = st1\<lparr>disk := fs2\<rparr>" by blast
  have "counts_ok st'"
    using counts_ok_main_loop[OF lp counts_ok_initial_state] st' by (simp add: counts_ok_disk)
  then show "match_true_count_unseen st' ! 0 \<le> match_true_count_all st' ! 0"
    "match_true_count_unseen st' ! 1 \<le> match_true_count_all st' ! 1"
    by (simp_all add: counts_ok_def)
qed (auto simp: counts_ok_initial_state counts_ok_count_validity counts_ok_count_valid_on_first
      counts_ok_count_match_all counts_ok_count_match_unseen_after_all counts_ok_count_match
      intro: counts_ok_process_variant counts_ok_process_formula counts_ok_main_loop)

section \<open>The rows of the consolidated table\<close>

lemma rows_update_counts [simp]:
  "rows (update_counts v rate valid_on_first is_match seen st) = rows st"
  by (simp add: update_counts_def count_match_def count_match_all_def count_match_unseen_def
      count_valid_on_first_def count_validity_def Let_def)

lemma disk_update_counts [simp]:
  "disk (update_counts v rate valid_on_first is_match seen st) = disk st"
  by (simp add: update_counts_def count_match_def count_match_all_def count_match_unseen_def
      count_valid_on_first_def count_validity_def Let_def)

lemma row_key_result_row:
  "row_key (result_row env training formula alignn_E v mean mn rate valid_on_first is_match) =
     (formula, sg_label v)"
  by (simp add: row_key_def result_row_def)

lemma process_variant_rows:
  assumes "process_variant env training formula true_cif alignn_E v st = Inr st'"
  shows "map row_key (rows st') = map row_key (rows st) @ [(formula, sg_label v)]"
proof -
  from process_variant_Inr[OF assms] obtain rate mn mean best first_ok matched d where
    "st' = update_counts v rate (yes_no first_ok) (yes_no matched)
             (if formula \<in> training then ''* '' else [])
             (st\<lparr>disk := d,
                 rows := rows st @
                   [result_row env training formula alignn_E v mean mn rate
                      (yes_no first_ok) (yes_no matched)]\<rparr>)" by blast
  then show ?thesis by (simp add: row_key_result_row)
qed

lemma process_formula_rows:
  assumes "process_formula env challenge_set training alignn_energies formula st = Inr st'"
  shows "map row_key (rows st') = map row_key (rows st) @ [(formula, ''no''), (formula, ''yes'')]"
proof -
  from process_formula_Inr[OF assms] obtain true_cif alignn_E d2 st1 where
    v1: "process_variant env training formula true_cif alignn_E NoSpaceGroup (st\<lparr>disk := d2\<rparr>) =
       Inr st1" and
    v2: "process_variant env training formula true_cif alignn_E WithSpaceGroup st1 = Inr st'"
    by blast
  show ?thesis
    using process_variant_rows[OF v1] process_variant_rows[OF v2] by simp
qed

lemma main_loop_rows:
  assumes "main_loop env challenge_set training alignn_energies formulas st = Inr st'"
  shows "map row_key (rows st') = map row_key (rows st) @ expected_keys formulas"
  using assms
proof (induction formulas arbitrary: st)
  case Nil
  then show ?case by (simp add: expected_keys_def)
next
  case (Cons formula rest)
  from Cons.prems obtain st1 where
    s1: "process_formula env challenge_set training alignn_energies formula st = Inr st1" and
    s2: "main_loop env challenge_set training alignn_energies rest st1 = Inr st'"
    by (auto split: sum.splits)
  show ?case
    using Cons.IH[OF s2] process_formula_rows[OF s1] by (simp add: expected_keys_def)
qed

section \<open>Writes stay inside the output directory\<close>

lemma changed_only_inside_refl: "changed_only_inside a a"
  by (simp add: changed_only_inside_def)

lemma changed_only_inside_trans:
  "changed_only_inside a b \<Longrightarrow> changed_only_inside b c \<Longrightarrow> changed_only_inside a c"
  by (auto simp: changed_only_inside_def)

lemma out_dir_join:
  assumes "\<not> prefix ''/'' formula"
  shows "path_join out_dir formula = out_dir @ formula"
  using assms by (cases formula) (simp_all add: path_join_def out_dir_def)

lemma prefix_out_dir_join3:
  assumes "\<not> prefix ''/'' formula" and "\<not> prefix ''/'' fname"
  shows "prefix out_dir (path_join3 out_dir formula fname)"
proof -
  have "path_join (out_dir @ formula) fname = (out_dir @ formula) @ fname \<or>
        path_join (out_dir @ formula) fname = (out_dir @ formula) @ ''/'' @ fname"
    using assms(2) by (cases fname) (simp_all add: path_join_def)
  then show ?thesis
    unfolding path_join3_def out_dir_join[OF assms(1)] by auto
qed

lemma write_text_inside:
  assumes "write_text fs p content = Inr fs'" and "prefix out_dir p"
  shows "changed_only_inside fs fs'"
  using assms by (auto simp: write_text_def changed_only_inside_def split: if_splits)

lemma makedirs_inside:
  assumes "makedirs fs p = Inr fs'" and "prefix out_dir p"
  shows "changed_only_inside fs fs'"
  using assms by (auto simp: makedirs_def changed_only_inside_def split: if_splits)

lemma write_cif_and_envs_inside:
  assumes "write_cif_and_envs env fs out_dir formula cif name = Inr fs'"
    and "\<not> prefix ''/'' formula" and "\<not> prefix ''/'' name" and "name \<noteq> []"
  shows "changed_only_inside fs fs'"
proof -
  from assms(1) obtain fs1 environments where
    w1: "write_text fs (path_join3 out_dir formula (name @ ''.cif'')) cif = Inr fs1" and
    w2: "write_text fs1 (path_join3 out_dir formula (name @ ''_envs.txt'')) environments = Inr fs'"
    by (auto simp: write_cif_and_envs_def write_file_def split: sum.splits)
  have n1: "\<not> prefix ''/'' (name @ ''.cif'')" and n2: "\<not> prefix ''/'' (name @ ''_envs.txt'')"
    using assms(3,4) by (cases name; simp)+
  show ?thesis
    using changed_only_inside_trans[OF
        write_text_inside[OF w1 prefix_out_dir_join3[OF assms(2) n1]]
        write_text_inside[OF w2 prefix_out_dir_join3[OF assms(2) n2]]] .
qed

lemma write_best_inside:
  assumes "write_best env fs formula best (best_name v) = Inr fs'" and "\<not> prefix ''/'' formula"
  shows "changed_only_inside fs fs'"
proof (cases "best = None \<or> best = Some []")
  case True
  then have "fs' = fs" using assms(1) by (auto simp: write_best_def)
  then show ?thesis by (simp add: changed_only_inside_refl)
next
  case False
  then obtain cif where "best = Some cif" "cif \<noteq> []" by (cases best) auto
  then have "write_cif_and_envs env fs out_dir formula cif (best_name v) = Inr fs'"
    using assms(1) by (simp add: write_best_def)
  then show ?thesis
    by (rule write_cif_and_envs_inside[OF _ assms(2)]) (cases v; simp)+
qed

lemma process_variant_inside:
  assumes "process_variant env training formula true_cif alignn_E v st = Inr st'"
    and "\<not> prefix ''/'' formula"
  shows "changed_only_inside (disk st) (disk st')"
proof -
  from process_variant_Inr[OF assms(1)] obtain rate mn mean best first_ok matched d where
    w: "write_best env (disk st) formula best (best_name v) = Inr d" and
    "st' = update_counts v rate (yes_no first_ok) (yes_no matched)
             (if formula \<in> training then ''* '' else [])
             (st\<lparr>disk := d,
                 rows := rows st @
                   [result_row env training formula alignn_E v mean mn rate
                      (yes_no first_ok) (yes_no matched)]\<rparr>)" by blast
  then have "disk st' = d" by simp
  then show ?thesis using write_best_inside[OF w assms(2)] by simp
qed

lemma process_formula_inside:
  assumes "process_formula env challenge_set training alignn_energies formula st = Inr st'"
    and "\<not> prefix ''/'' formula"
  shows "changed_only_inside (disk st) (disk st')"
proof -
  from process_formula_Inr[OF assms(1)] obtain d1 true_cif alignn_E d2 st1 where
    m: "makedirs (disk st) (path_join out_dir formula) = Inr d1" and
    w: "write_cif_and_envs env d1 out_dir formula true_cif ''true'' = Inr d2" and
    v1: "process_variant env training formula true_cif alignn_E NoSpaceGroup (st\<lparr>disk := d2\<rparr>) =
       Inr st1" and
    v2: "process_variant env training formula true_cif alignn_E WithSpaceGroup st1 = Inr st'"
    by blast
  have a: "changed_only_inside (disk st) d1"
    using makedirs_inside[OF m] out_dir_join[OF assms(2)] by simp
  have b: "changed_only_inside d1 d2"
    by (rule write_cif_and_envs_inside[OF w assms(2)]) simp_all
  have c: "changed_only_inside d2 (disk st1)"
    using process_variant_inside[OF v1 assms(2)] by simp
  have d: "changed_only_inside (disk st1) (disk st')"
    by (rule process_variant_inside[OF v2 assms(2)])
  show ?thesis
    using a b c d changed_only_inside_trans by blast
qed

lemma main_loop_inside:
  assumes "main_loop env challenge_set training alignn_energies formulas st = Inr st'"
    and "\<forall>f\<in>set formulas. \<not> prefix ''/'' f"
  shows "changed_only_inside (disk st) (disk st')"
  using assms
proof (induction formulas arbitrary: st)
  case Nil
  then show ?case by (simp add: changed_only_inside_refl)
next
  case (Cons formula rest)
  from Cons.prems(1) obtain st1 where
    s1: "process_formula env challenge_set training alignn_energies formula st = Inr st1" and
    s2: "main_loop env challenge_set training alignn_energies rest st1 = Inr st'"
    by (auto split: sum.splits)
  have "changed_only_inside (disk st) (disk st1)"
    using process_formula_inside[OF s1] Cons.prems(2) by simp
  moreover have "changed_only_inside (disk st1) (disk st')"
    using Cons.IH[OF s2] Cons.prems(2) by simp
  ultimately show ?case by (rule changed_only_inside_trans)
qed

section \<open>The keys of the challenge set\<close>

lemma split_char_no_separator: "w \<in> set (split_char c s) \<Longrightarrow> c \<notin> set w"
proof (induction s arbitrary: w)
  case Nil
  then show ?case by simp
next
  case (Cons x xs)
  show ?case
  proof (cases "x = c")
    case True
    then show ?thesis using Cons by auto
  next
    case False
    then show ?thesis
      using Cons by (cases "split_char c xs") auto
  qed
qed

lemma challenge_loop_keys:
  assumes "challenge_loop env entries challenge_set training = Inr (challenge_set', training')"
    and "\<forall>k\<in>fst ` set challenge_set. CHR ''/'' \<notin> set k"
  shows "\<forall>k\<in>fst ` set challenge_set'. CHR ''/'' \<notin> set k"
  using assms
proof (induction env entries challenge_set training rule: challenge_loop.induct)
  case (1 env challenge_set training)
  then show ?case by simp
next
  case (2 env filename content rest challenge_set training)
  let ?components = "split_char CHR ''/'' filename"
  show ?case
  proof (cases "last ?components = ''metadata.csv''")
    case True
    with "2.prems"(1) obtain header_row data training1 where
      c: "csv_reader env content = header_row # data"
        "metadata_loop env data training = Inr training1"
        "challenge_loop env rest challenge_set training1 = Inr (challenge_set', training')"
      by (auto simp: Let_def split: list.splits sum.splits)
    show ?thesis
      using "2.IH"(1)[OF refl True c(1) c(2) c(3) "2.prems"(2)] .
  next
    case notmeta: False
    show ?thesis
    proof (cases "length ?components < 3 \<or> length (last ?components) = 0")
      case True
      with notmeta "2.prems"(1) have
        "challenge_loop env rest challenge_set training = Inr (challenge_set', training')"
        by (simp add: Let_def)
      from "2.IH"(2)[OF refl notmeta True this "2.prems"(2)] show ?thesis .
    next
      case long: False
      show ?thesis
      proof (cases "suffix ''pymatgen.cif'' (?components ! 2)")
        case True
        with notmeta long "2.prems"(1) have r:
          "challenge_loop env rest (AList.update (?components ! 1) content challenge_set) training =
             Inr (challenge_set', training')"
          by (simp add: Let_def)
        have "?components ! 1 \<in> set ?components" using long by simp
        then have "CHR ''/'' \<notin> set (?components ! 1)" by (rule split_char_no_separator)
        then have "\<forall>k\<in>fst ` set (AList.update (?components ! 1) content challenge_set).
            CHR ''/'' \<notin> set k"
          using "2.prems"(2) by (simp add: dom_update)
        from "2.IH"(3)[OF refl notmeta long refl refl True r this] show ?thesis .
      next
        case False
        with notmeta long "2.prems"(1) have r:
          "challenge_loop env rest challenge_set training = Inr (challenge_set', training')"
          by (simp add: Let_def)
        from "2.IH"(4)[OF refl notmeta long refl refl False r "2.prems"(2)] show ?thesis .
      qed
    qed
  qed
qed

lemma read_challenge_set_keys:
  assumes "read_challenge_set env input_zip = Inr (challenge_set, training)"
  shows "\<forall>f\<in>set (sort (map fst challenge_set)). \<not> prefix ''/'' f"
proof -
  have "\<forall>k\<in>fst ` set challenge_set. CHR ''/'' \<notin> set k"
    using challenge_loop_keys[OF assms[unfolded read_challenge_set_def]] by simp
  then have "\<forall>k\<in>fst ` set challenge_set. \<not> prefix ''/'' k"
    by (auto simp: prefix_def)
  then show ?thesis by simp
qed

section \<open>Running the script again\<close>

lemma reset_out_dir_outside:
  assumes "reset_out_dir fs = Inr fs1" and "\<not> prefix out_dir p"
  shows "files fs1 p = files fs p \<and> (p \<in> dirs fs1 \<longleftrightarrow> p \<in> dirs fs)"
  using assms
  by (auto simp: reset_out_dir_def makedirs_def rmtree_def path_exists_def split: if_splits)

lemma reset_out_dir_creates:
  assumes "reset_out_dir fs = Inr fs1"
  shows "out_dir \<in> dirs fs1"
  using assms
  by (auto simp: reset_out_dir_def makedirs_def split: if_splits)

lemma rmtree_after_reset:
  assumes r: "reset_out_dir fs = Inr fs1" and wf: "out_dir_wellformed fs"
  shows "(rmtree fs1 out_dir)\<lparr>dirs := insert out_dir (dirs (rmtree fs1 out_dir))\<rparr> = fs1"
proof (cases "out_dir \<in> dirs fs")
  case True
  then have fs1: "fs1 = (rmtree fs out_dir)\<lparr>dirs := insert out_dir (dirs (rmtree fs out_dir))\<rparr>"
    using r by (auto simp: reset_out_dir_def makedirs_def path_exists_def split: if_splits)
  show ?thesis
    unfolding fs1 by (rule fsys.equality) (auto simp: rmtree_def fun_eq_iff)
next
  case False
  then have fs1: "fs1 = fs\<lparr>dirs := insert out_dir (dirs fs)\<rparr>"
    using r by (auto simp: reset_out_dir_def makedirs_def path_exists_def split: if_splits)
  from False wf have empty: "\<forall>p. prefix out_dir p \<longrightarrow> files fs p = None \<and> p \<notin> dirs fs"
    by (simp add: out_dir_wellformed_def)
  show ?thesis
    unfolding fs1 by (rule fsys.equality) (use empty in \<open>auto simp: rmtree_def fun_eq_iff\<close>)
qed

lemma reset_out_dir_again:
  assumes r: "reset_out_dir fs = Inr fs1" and wf: "out_dir_wellformed fs"
    and ch: "changed_only_inside fs1 d"
  shows "reset_out_dir d = Inr fs1"
proof -
  have ind: "out_dir \<in> dirs d"
    using reset_out_dir_creates[OF r] ch by (auto simp: changed_only_inside_def)
  have rm: "rmtree d out_dir = rmtree fs1 out_dir"
    unfolding rmtree_def
    by (rule fsys.equality) (use ch in \<open>auto simp: changed_only_inside_def fun_eq_iff\<close>)
  have "reset_out_dir d = makedirs (rmtree fs1 out_dir) out_dir"
    using ind by (simp add: reset_out_dir_def path_exists_def rm)
  also have "\<dots> = Inr ((rmtree fs1 out_dir)\<lparr>dirs := insert out_dir (dirs (rmtree fs1 out_dir))\<rparr>)"
    by (simp add: makedirs_def path_exists_def rmtree_def)
  also have "\<dots> = Inr fs1"
    by (simp only: rmtree_after_reset[OF r wf])
  finally show ?thesis .
qed

lemma read_text_outside:
  assumes "files b p = files a p" and "p \<in> dirs b \<longleftrightarrow> p \<in> dirs a"
  shows "read_text b p = read_text a p"
  using assms by (simp add: read_text_def)

lemma alignn_energies_path_outside: "\<not> prefix out_dir alignn_energies_path"
  by (simp add: out_dir_def alignn_energies_path_def)

lemma results_path_inside: "prefix out_dir (path_join out_dir ''results.csv'')"
  by (simp add: out_dir_def path_join_def)

lemma main_again:
  assumes m: "main env input_zip fs = Inr st" and wf: "out_dir_wellformed fs"
  shows "main env input_zip (disk st) = Inr st"
proof -
  from main_Inr[OF m] obtain alignn_energies challenge_set training fs1 st1 fs2 where
    en: "read_alignn_energies env fs alignn_energies_path = Inr alignn_energies" and
    cs: "read_challenge_set env input_zip = Inr (challenge_set, training)" and
    rs: "reset_out_dir fs = Inr fs1" and
    lp: "main_loop env challenge_set training alignn_energies (sort (map fst challenge_set))
           (initial_state fs1) = Inr st1" and
    wr: "write_text (disk st1) (path_join out_dir ''results.csv'')
           (csv_writer env (header # rows st1)) = Inr fs2" and
    st: "st = st1\<lparr>disk := fs2\<rparr>" by blast
  have "changed_only_inside (disk (initial_state fs1)) (disk st1)"
    by (rule main_loop_inside[OF lp read_challenge_set_keys[OF cs]])
  then have "changed_only_inside fs1 (disk st1)" by (simp add: initial_state_def)
  from changed_only_inside_trans[OF this write_text_inside[OF wr results_path_inside]]
  have ch: "changed_only_inside fs1 fs2" .
  have same: "files fs2 alignn_energies_path = files fs alignn_energies_path \<and>
      (alignn_energies_path \<in> dirs fs2 \<longleftrightarrow> alignn_energies_path \<in> dirs fs)"
    using ch reset_out_dir_outside[OF rs alignn_energies_path_outside]
      alignn_energies_path_outside
    by (auto simp: changed_only_inside_def)
  have en2: "read_alignn_energies env fs2 alignn_energies_path = Inr alignn_energies"
    using en read_text_outside[of fs2 alignn_energies_path fs] same
    by (simp add: read_alignn_energies_def)
  have rs2: "reset_out_dir fs2 = Inr fs1"
    by (rule reset_out_dir_again[OF rs wf ch])
  have "main env input_zip fs2 = Inr st"
    by (simp add: main_def en2 cs rs2 lp wr st)
  then show ?thesis by (simp add: st)
qed

lemma main_rows_and_table:
  assumes m: "main env input_zip fs = Inr st"
  shows "(\<exists>challenge_set training.
            read_challenge_set env input_zip = Inr (challenge_set, training) \<and>
            map row_key (rows st) = expected_keys (sort (map fst challenge_set))) \<and>
         files (disk st) (path_join out_dir ''results.csv'') =
           Some (csv_writer env (header # rows st))"
proof -
  from main_Inr[OF m] obtain alignn_energies challenge_set training fs1 st1 fs2 where
    cs: "read_challenge_set env input_zip = Inr (challenge_set, training)" and
    lp: "main_loop env challenge_set training alignn_energies (sort (map fst challenge_set))
           (initial_state fs1) = Inr st1" and
    wr: "write_text (disk st1) (path_join out_dir ''results.csv'')
           (csv_writer env (header # rows st1)) = Inr fs2" and
    st: "st = st1\<lparr>disk := fs2\<rparr>" by blast
  have "map row_key (rows st1) = expected_keys (sort (map fst challenge_set))"
    using main_loop_rows[OF lp] by (simp add: initial_state_def)
  moreover have "files fs2 (path_join out_dir ''results.csv'') =
      Some (csv_writer env (header # rows st1))"
    using wr by (auto simp: write_text_def split: if_splits)
  ultimately show ?thesis using cs st by simp
qed

text \<open>
  Claim C7. When the script runs to its end on a file system whose output directory is
  well formed, running it again on the file system it left behind ends in exactly the same
  state: the same file system, hence the same bytes in the consolidated table, the same
  rows and counters. The rows are two per formula of the challenge set, in sorted order of
  the formulas, the unconstrained row before the space-group row, and the consolidated
  table is the CSV writer's output for the header followed by these rows.
\<close>

theorem rerun_gives_identical_table:
  assumes "main env input_zip fs = Inr st" and "out_dir_wellformed fs"
  shows "main env input_zip (disk st) = Inr st \<and>
         (\<exists>challenge_set training.
            read_challenge_set env input_zip = Inr (challenge_set, training) \<and>
            map row_key (rows st) = expected_keys (sort (map fst challenge_set))) \<and>
         files (disk st) (path_join out_dir ''results.csv'') =
           Some (csv_writer env (header # rows st))"
  using main_again[OF assms] main_rows_and_table[OF assms(1)] by blast


lemma demo_main_eval:
  "(case main demo_env demo_zip demo_disk of
      Inl e \<Rightarrow> False
    | Inr st \<Rightarrow>
        rows st =
          [[''Li2O'', ''no'', ''-1.50000'', ''no'', ''nan'', ''nan'', ''0.00'', ''no'', ''no''],
           [''Li2O'', ''no'', ''-1.50000'', ''yes'', ''nan'', ''nan'', ''0.00'', ''no'', ''no''],
           [''NaCl'', ''yes'', ''-1.50000'', ''no'', ''3.00000'', ''3.00000'', ''0.50'', ''no'',
            ''yes''],
           [''NaCl'', ''yes'', ''-1.50000'', ''yes'', ''nan'', ''nan'', ''0.00'', ''no'', ''no'']] \<and>
        validity_count st = [1, 0] \<and> valid_on_first_count st = [0, 0] \<and>
        match_true_count_all st = [1, 0] \<and> match_true_count_unseen st = [0, 0])"
  by code_simp

lemma demo_main_run:
  "\<exists>st. main demo_env demo_zip demo_disk = Inr st \<and>
     rows st =
       [[''Li2O'', ''no'', ''-1.50000'', ''no'', ''nan'', ''nan'', ''0.00'', ''no'', ''no''],
        [''Li2O'', ''no'', ''-1.50000'', ''yes'', ''nan'', ''nan'', ''0.00'', ''no'', ''no''],
        [''NaCl'', ''yes'', ''-1.50000'', ''no'', ''3.00000'', ''3.00000'', ''0.50'', ''no'',
         ''yes''],
        [''NaCl'', ''yes'', ''-1.50000'', ''yes'', ''nan'', ''nan'', ''0.00'', ''no'', ''no'']] \<and>
     validity_count st = [1, 0] \<and> valid_on_first_count st = [0, 0] \<and>
     match_true_count_all st = [1, 0] \<and> match_true_count_unseen st = [0, 0]"
  using demo_main_eval by (cases "main demo_env demo_zip demo_disk") simp_all

lemma demo_disk_paths_outside:
  "\<forall>k\<in>set (map fst demo_disk_files @ demo_disk_dirs). \<not> prefix out_dir k"
  by code_simp

lemma demo_disk_wellformed: "out_dir_wellformed demo_disk"
proof -
  have "files demo_disk p = None \<and> p \<notin> dirs demo_disk" if p: "prefix out_dir p" for p
  proof -
    have "p \<notin> set (map fst demo_disk_files @ demo_disk_dirs)"
      using demo_disk_paths_outside p by blast
    then show ?thesis by (simp add: demo_disk_def map_of_eq_None_iff)
  qed
  then show ?thesis by (simp add: out_dir_wellformed_def)
qed

theorem rerun_gives_identical_table_witness:
  "out_dir_wellformed demo_disk \<and>
   (\<exists>st. main demo_env demo_zip demo_disk = Inr st \<and>
      main demo_env demo_zip (disk st) = Inr st \<and>
      map row_key (rows st) =
        [(''Li2O'', ''no''), (''Li2O'', ''yes''), (''NaCl'', ''no''), (''NaCl'', ''yes'')] \<and>
      files (disk st) (path_join out_dir ''results.csv'') =
        Some (csv_writer demo_env (header # rows st)))"
proof -
  from demo_main_run obtain st where
    m: "main demo_env demo_zip demo_disk = Inr st" and
    r: "rows st =
       [[''Li2O'', ''no'', ''-1.50000'', ''no'', ''nan'', ''nan'', ''0.00'', ''no'', ''no''],
        [''Li2O'', ''no'', ''-1.50000'', ''yes'', ''nan'', ''nan'', ''0.00'', ''no'', ''no''],
        [''NaCl'', ''yes'', ''-1.50000'', ''no'', ''3.00000'', ''3.00000'', ''0.50'', ''no'',
         ''yes''],
        [''NaCl'', ''yes'', ''-1.50000'', ''yes'', ''nan'', ''nan'', ''0.00'', ''no'', ''no'']]"
    by blast
  have k: "map row_key (rows st) =
        [(''Li2O'', ''no''), (''Li2O'', ''yes''), (''NaCl'', ''no''), (''NaCl'', ''yes'')]"
    by (simp add: r row_key_def)
  from rerun_gives_identical_table[OF m demo_disk_wellformed] have
    "main demo_env demo_zip (disk st) = Inr st"
    "files (disk st) (path_join out_dir ''results.csv'') =
        Some (csv_writer demo_env (header # rows st))" by blast+
  with m k demo_disk_wellformed show ?thesis
    by (intro conjI exI[of _ st])
qed

theorem unseen_matches_never_exceed_all_matches_witness:
  "counts_ok (initial_state demo_disk) \<and>
   counts_ok (count_match_all NoSpaceGroup (initial_state demo_disk)) \<and>
   counts_ok (count_match NoSpaceGroup ''yes'' [] (initial_state demo_disk)) \<and>
   match_true_count_all (count_match NoSpaceGroup ''yes'' [] (initial_state demo_disk)) = [1, 0] \<and>
   match_true_count_unseen (count_match NoSpaceGroup ''yes'' [] (initial_state demo_disk)) = [1, 0] \<and>
   (\<exists>st. main demo_env demo_zip demo_disk = Inr st \<and>
      match_true_count_all st = [1, 0] \<and> match_true_count_unseen st = [0, 0] \<and>
      match_true_count_unseen st ! 0 \<le> match_true_count_all st ! 0 \<and>
      match_true_count_unseen st ! 1 \<le> match_true_count_all st ! 1)"
proof -
  note t = unseen_matches_never_exceed_all_matches[where fs = demo_disk
      and st = "initial_state demo_disk" and v = NoSpaceGroup and is_match = "''yes''"
      and seen = "[]" and env = demo_env and input_zip = demo_zip]
  have a: "counts_ok (initial_state demo_disk)" using t by blast
  have b: "counts_ok (count_match_all NoSpaceGroup (initial_state demo_disk))"
    "counts_ok (count_match NoSpaceGroup ''yes'' [] (initial_state demo_disk))"
    using t a by blast+
  have c: "match_true_count_all (count_match NoSpaceGroup ''yes'' [] (initial_state demo_disk)) =
      [1, 0]"
    "match_true_count_unseen (count_match NoSpaceGroup ''yes'' [] (initial_state demo_disk)) =
      [1, 0]"
    by (simp_all add: count_match_def count_match_all_def count_match_unseen_def
        initial_state_def bump_def Let_def)
  from demo_main_run obtain st where
    m: "main demo_env demo_zip demo_disk = Inr st" and
    n: "match_true_count_all st = [1, 0]" "match_true_count_unseen st = [0, 0]" by blast
  have d: "match_true_count_unseen st ! 0 \<le> match_true_count_all st ! 0 \<and>
      match_true_count_unseen st ! 1 \<le> match_true_count_all st ! 1"
    using unseen_matches_never_exceed_all_matches[where fs = demo_disk and env = demo_env
        and input_zip = demo_zip and st' = st] m by blast
  show ?thesis
    using a b c m n d by (intro conjI exI[of _ st]; simp)
qed

section \<open>The energy lookup\<close>






















section \<open>The header of the consolidated table\<close>

text \<open>
  Claim C9. The consolidated table is the CSV writer's output for the header followed by
  the accumulated rows, but the header the script writes is not the one the claim lists:
  its second field is \<^verbatim>\<open>seen_in_trainig\<close>.
\<close>

theorem consolidated_table_header_is_misspelt:
  "header \<noteq> spec_header \<and>
   header ! 1 = ''seen_in_trainig'' \<and> spec_header ! 1 = ''seen_in_training'' \<and>
   (\<exists>st. main demo_env demo_zip demo_disk = Inr st \<and>
      files (disk st) (path_join out_dir ''results.csv'') =
        Some (csv_writer demo_env (header # rows st)))"
proof -
  from demo_main_run obtain st where m: "main demo_env demo_zip demo_disk = Inr st" by blast
  from main_rows_and_table[OF m] have
    "files (disk st) (path_join out_dir ''results.csv'') =
        Some (csv_writer demo_env (header # rows st))" by blast
  with m have "\<exists>st. main demo_env demo_zip demo_disk = Inr st \<and>
      files (disk st) (path_join out_dir ''results.csv'') =
        Some (csv_writer demo_env (header # rows st))" by blast
  moreover have "header \<noteq> spec_header" "header ! 1 = ''seen_in_trainig''"
    "spec_header ! 1 = ''seen_in_training''"
    by (simp_all add: header_def spec_header_def)
  ultimately show ?thesis by blast
qed

end
